theory Spec2Isabelle
  imports Complex_Main "HOL-Library.Word"
begin

section \<open>The Acquire camera adapter (AcquireCamera.cpp)\<close>

text \<open>
  The adapter keeps a vector of image buffers and talks to the frame source (the cpx
  runtime) through \<^verbatim>\<open>cpx_configure\<close>, \<^verbatim>\<open>cpx_start\<close>, \<^verbatim>\<open>cpx_stop\<close>,
  \<^verbatim>\<open>cpx_map_read\<close> and \<^verbatim>\<open>cpx_unmap_read\<close>. The runtime is not part of the adapter: what
  it answers is an input of the model, and every call the adapter makes is appended to a
  history, so that the order of the calls can be stated.
\<close>

subsection \<open>Data\<close>

type_synonym byte = "8 word"
type_synonym size_t = "64 word"
type_synonym unsigned = "32 word"

text \<open>
  \<^verbatim>\<open>VideoFrame\<close>: a header carrying \<^verbatim>\<open>bytes_of_frame\<close> (header and payload together),
  followed by the flexible array \<^verbatim>\<open>data\<close>. \<open>data f i\<close> is the byte at \<^verbatim>\<open>data[i]\<close>.
\<close>

record VideoFrame =
  bytes_of_frame :: size_t
  data :: "nat \<Rightarrow> byte"

text \<open>
  What one \<^verbatim>\<open>cpx_map_read\<close> hands back: the two pointers \<^verbatim>\<open>beg\<close> and \<^verbatim>\<open>end\<close> as
  addresses, and the frame stored at \<^verbatim>\<open>beg\<close> (read by the adapter only when
  \<^verbatim>\<open>beg != end\<close>).
\<close>

record FrameView =
  beg :: size_t
  fin :: size_t
  at_beg :: VideoFrame

text \<open>
  Modelled from the spec: \<^verbatim>\<open>ImgBuffer\<close> (MMDevice, not among the sources), "a simple
  width x height x depth pixel container with resize and raw read/write pixel access".
  \<open>Resize\<close> sets the three dimensions and provides width * height * depth bytes of pixel
  storage; the bytes are taken as zero (the spec leaves them open: "content need not
  persist").
\<close>

record ImgBuffer =
  Width :: unsigned
  Height :: unsigned
  Depth :: unsigned
  pixels :: "byte list"

definition ImgBuffer0 :: ImgBuffer where
  "ImgBuffer0 = \<lparr>Width = 0, Height = 0, Depth = 0, pixels = []\<rparr>"

definition Resize :: "ImgBuffer \<Rightarrow> unsigned \<Rightarrow> unsigned \<Rightarrow> unsigned \<Rightarrow> ImgBuffer" where
  "Resize b xSize ySize pixDepth =
     b\<lparr>Width := xSize, Height := ySize, Depth := pixDepth,
       pixels := replicate (unat xSize * unat ySize * unat pixDepth) 0\<rparr>"

datatype CpxStatus = CpxStatus_Ok | CpxStatus_Error

datatype SampleType = SampleType_u8 | SampleType_u16

text \<open>The part of \<^verbatim>\<open>CpxProperties\<close> that \<^verbatim>\<open>SnapImage\<close> writes, per video stream.\<close>

record VideoProps =
  binning :: nat
  pixel_type :: SampleType
  shape :: "unsigned \<times> unsigned"
  max_frame_count :: nat

text \<open>The history of effects: calls into the runtime and copies into image buffers.\<close>

datatype event =
    Configure "VideoProps \<times> VideoProps"
  | Start
  | Stop
  | MapRead nat
  | UnmapRead nat "32 word"
  | Memcpy nat nat nat  \<comment> \<open>buffer index, byte offset in the buffer, number of bytes\<close>
  | LogMessage string

text \<open>
  The adapter's fields, and the runtime behind its \<^verbatim>\<open>cpx\<close> pointer: \<open>feed stream k\<close>
  is what the \<open>k\<close>-th \<^verbatim>\<open>cpx_map_read\<close> on a stream returns (counting from 0),
  \<open>polls stream\<close> counts the calls made so far, \<open>configure_status\<close> and
  \<open>start_status\<close> are what \<^verbatim>\<open>cpx_configure\<close> and \<^verbatim>\<open>cpx_start\<close> answer.
\<close>

record AcquireCamera =
  initialized :: bool
  multiChannel :: bool
  demo :: bool
  imgs :: "ImgBuffer list"
  feed :: "nat \<Rightarrow> nat \<Rightarrow> FrameView"
  polls :: "nat \<Rightarrow> nat"
  configure_status :: CpxStatus
  start_status :: CpxStatus
  history :: "event list"

text \<open>
  Undefined behaviour and the C++ exception are results of their own; each carries the
  state in which it happened.
\<close>

datatype fault =
    Exception string
  | IndexOutOfRange
  | BufferOverrun

type_synonym 'a result = "(fault \<times> AcquireCamera) + ('a \<times> AcquireCamera)"

datatype retcode =
    DEVICE_OK
  | DEVICE_INVALID_PROPERTY
  | DEVICE_DUPLICATE_PROPERTY
  | DEVICE_NONEXISTENT_CHANNEL
  | ERR_CPX_INIT
  | ERR_CPX_CONFIURE_FAILED
  | CpxCode CpxStatus  \<comment> \<open>a status of the runtime, returned as it is\<close>

definition DEMO_IMAGE_WIDTH :: unsigned where
  "DEMO_IMAGE_WIDTH = 640"

definition DEMO_IMAGE_HEIGHT :: unsigned where
  "DEMO_IMAGE_HEIGHT = 480"

subsection \<open>The runtime's calls\<close>

definition cpx_map_read :: "AcquireCamera \<Rightarrow> nat \<Rightarrow> AcquireCamera \<times> FrameView" where
  "cpx_map_read s stream =
     (s\<lparr>polls := (polls s)(stream := Suc (polls s stream)),
        history := history s @ [MapRead stream]\<rparr>,
      feed s stream (polls s stream))"

definition cpx_unmap_read :: "AcquireCamera \<Rightarrow> nat \<Rightarrow> 32 word \<Rightarrow> AcquireCamera" where
  "cpx_unmap_read s stream n = s\<lparr>history := history s @ [UnmapRead stream n]\<rparr>"

definition cpx_configure :: "AcquireCamera \<Rightarrow> VideoProps \<times> VideoProps \<Rightarrow> AcquireCamera \<times> CpxStatus" where
  "cpx_configure s props = (s\<lparr>history := history s @ [Configure props]\<rparr>, configure_status s)"

definition cpx_start :: "AcquireCamera \<Rightarrow> AcquireCamera \<times> CpxStatus" where
  "cpx_start s = (s\<lparr>history := history s @ [Start]\<rparr>, start_status s)"

definition cpx_stop :: "AcquireCamera \<Rightarrow> AcquireCamera" where
  "cpx_stop s = s\<lparr>history := history s @ [Stop]\<rparr>"

subsection \<open>readFrame and readFrames\<close>

text \<open>The two lambdas of \<^verbatim>\<open>readFrame\<close>; \<^verbatim>\<open>next\<close> is declared there and never called.\<close>

definition next_frame :: "size_t \<Rightarrow> VideoFrame \<Rightarrow> size_t" where
  "next_frame cur f = cur + bytes_of_frame f"

definition consumed_bytes :: "size_t \<Rightarrow> size_t \<Rightarrow> size_t" where
  "consumed_bytes cur e = e - cur"

text \<open>
  \<^verbatim>\<open>memcpy(dst + off, src, n)\<close> into a pixel array: writing past its end is undefined
  behaviour.
\<close>

definition memcpy :: "byte list \<Rightarrow> nat \<Rightarrow> (nat \<Rightarrow> byte) \<Rightarrow> nat \<Rightarrow> byte list option" where
  "memcpy dst off src n =
     (if off + n \<le> length dst
      then Some (take off dst @ map src [0..<n] @ drop (off + n) dst)
      else None)"

text \<open>
  \<^verbatim>\<open>memcpy(imgs[i].GetPixelsRW() + off, beg->data, beg->bytes_of_frame - sizeof(VideoFrame))\<close>.
  The subtraction is in \<^verbatim>\<open>size_t\<close> and wraps.
\<close>

definition copy_frame :: "size_t \<Rightarrow> FrameView \<Rightarrow> nat \<Rightarrow> nat \<Rightarrow> AcquireCamera \<Rightarrow> unit result" where
  "copy_frame sizeof_VideoFrame v i off s =
     (if i < length (imgs s)
      then (let n = unat (bytes_of_frame (at_beg v) - sizeof_VideoFrame) in
            case memcpy (pixels (imgs s ! i)) off (data (at_beg v)) n of
              None \<Rightarrow> Inl (BufferOverrun, s)
            | Some px \<Rightarrow>
                Inr ((), s\<lparr>imgs := (imgs s)[i := (imgs s ! i)\<lparr>pixels := px\<rparr>],
                          history := history s @ [Memcpy i off n]\<rparr>))
      else Inl (IndexOutOfRange, s))"

text \<open>
  \<^verbatim>\<open>while (beg == end) { cpx_map_read(cpx, stream, &beg, &end); sleep_for(...); }\<close>
  There is no timeout: the loop need not end, and \<open>None\<close> is the run that never leaves it.
  The sleep changes no state and is left out.
\<close>

partial_function (option) await_frame ::
    "nat \<Rightarrow> AcquireCamera \<Rightarrow> FrameView \<Rightarrow> (AcquireCamera \<times> FrameView) option" where
  "await_frame stream s v =
     (if beg v = fin v
      then (case cpx_map_read s stream of (s', v') \<Rightarrow> await_frame stream s' v')
      else Some (s, v))"

declare await_frame.simps [code]

text \<open>
  The first \<^verbatim>\<open>cpx_map_read\<close> and the loop after it. \<^verbatim>\<open>readFrames\<close> repeats both for
  each of its two streams (it sleeps 5 ms where \<^verbatim>\<open>readFrame\<close> sleeps 10).
\<close>

definition acquire :: "nat \<Rightarrow> AcquireCamera \<Rightarrow> (AcquireCamera \<times> FrameView) option" where
  "acquire stream s = (case cpx_map_read s stream of (s1, v1) \<Rightarrow> await_frame stream s1 v1)"

text \<open>\<^verbatim>\<open>uint32_t n = (uint32_t) consumed_bytes(beg, end); cpx_unmap_read(cpx, stream, n);\<close>\<close>

definition release :: "FrameView \<Rightarrow> nat \<Rightarrow> AcquireCamera \<Rightarrow> AcquireCamera" where
  "release v stream s = cpx_unmap_read s stream (ucast (consumed_bytes (beg v) (fin v)))"

text \<open>
  The copy into buffer \<open>i\<close> at offset \<open>off\<close>, then the release; the routines return 0.
  Streams and buffer indices are natural numbers (\<^verbatim>\<open>int stream\<close> in the source: a negative
  index is as far out of range as one past the end).
\<close>

definition store :: "size_t \<Rightarrow> FrameView \<Rightarrow> nat \<Rightarrow> nat \<Rightarrow> nat \<Rightarrow> AcquireCamera \<Rightarrow> int result" where
  "store sizeof_VideoFrame v stream i off s =
     (case copy_frame sizeof_VideoFrame v i off s of
        Inl e \<Rightarrow> Inl e
      | Inr (u, s') \<Rightarrow> Inr (0, release v stream s'))"

definition readFrame :: "size_t \<Rightarrow> nat \<Rightarrow> AcquireCamera \<Rightarrow> int result option" where
  "readFrame sizeof_VideoFrame stream s =
     map_option (\<lambda>(s', v). store sizeof_VideoFrame v stream stream 0 s') (acquire stream s)"

text \<open>
  \<^verbatim>\<open>(uintptr_t)imgs[0].Width() * imgs[0].Height() * imgs[0].Depth() / 2\<close>, computed in
  64 bits.
\<close>

definition second_half :: "ImgBuffer \<Rightarrow> nat" where
  "second_half b =
     unat (((ucast (Width b) :: size_t) * ucast (Height b) * ucast (Depth b)) div 2)"

definition second_frame :: "size_t \<Rightarrow> FrameView \<Rightarrow> AcquireCamera \<Rightarrow> int result" where
  "second_frame sizeof_VideoFrame v s =
     (if multiChannel s then store sizeof_VideoFrame v 1 1 0 s
      else (case imgs s of
              [] \<Rightarrow> Inl (IndexOutOfRange, s)
            | b # bs \<Rightarrow> store sizeof_VideoFrame v 1 0 (second_half b) s))"

definition readFrames :: "size_t \<Rightarrow> AcquireCamera \<Rightarrow> int result option" where
  "readFrames sizeof_VideoFrame s =
     (case acquire 0 s of
        None \<Rightarrow> None
      | Some (s0, v0) \<Rightarrow>
          (case store sizeof_VideoFrame v0 0 0 0 s0 of
             Inl e \<Rightarrow> Some (Inl e)
           | Inr (r, s1) \<Rightarrow>
               map_option (\<lambda>(s', v1). second_frame sizeof_VideoFrame v1 s') (acquire 1 s1)))"

subsection \<open>Buffer setup, the Mode property, Initialize\<close>

definition setupBuffers :: "AcquireCamera \<Rightarrow> AcquireCamera" where
  "setupBuffers s =
     (let pixDepth = 1 in
      if demo s
      then (if multiChannel s
            then s\<lparr>imgs := [Resize ImgBuffer0 DEMO_IMAGE_WIDTH DEMO_IMAGE_HEIGHT pixDepth,
                            Resize ImgBuffer0 DEMO_IMAGE_WIDTH DEMO_IMAGE_HEIGHT pixDepth]\<rparr>
            else s\<lparr>imgs := [Resize ImgBuffer0 DEMO_IMAGE_WIDTH (DEMO_IMAGE_HEIGHT * 2) pixDepth]\<rparr>)
      else s)"

text \<open>
  The two legal values of the Mode property. Their strings are declared in AcquireCamera.h,
  which is not among the sources; the spec gives them as "Multi" and "Single".
\<close>

definition g_prop_Mode_Multi :: string where
  "g_prop_Mode_Multi = ''Multi''"

definition g_prop_Mode_Single :: string where
  "g_prop_Mode_Single = ''Single''"

datatype ActionType =
  NoAction | BeforeGet | AfterSet | IsSequenceable | AfterLoadSequence | StartSequence | StopSequence

text \<open>
  The handler gets the property's value and returns it again: \<^verbatim>\<open>pProp->Set\<close> replaces
  it, \<^verbatim>\<open>pProp->Get\<close> reads it.
\<close>

definition OnImageMode :: "AcquireCamera \<Rightarrow> string \<Rightarrow> ActionType \<Rightarrow> retcode \<times> AcquireCamera \<times> string" where
  "OnImageMode s pProp eAct =
     (if eAct = BeforeGet
      then (DEVICE_OK, s, if multiChannel s then g_prop_Mode_Multi else g_prop_Mode_Single)
      else if eAct = AfterSet
      then (DEVICE_OK, setupBuffers (s\<lparr>multiChannel := (pProp = g_prop_Mode_Multi)\<rparr>), pProp)
      else (DEVICE_OK, s, pProp))"

text \<open>The constructor: \<^verbatim>\<open>initialized_(false), multiChannel(true), demo(true)\<close>, no buffers.\<close>

definition AcquireCamera0 :: "(nat \<Rightarrow> nat \<Rightarrow> FrameView) \<Rightarrow> CpxStatus \<Rightarrow> CpxStatus \<Rightarrow> AcquireCamera" where
  "AcquireCamera0 f c t =
     \<lparr>initialized = False, multiChannel = True, demo = True, imgs = [], feed = f,
      polls = (\<lambda>stream. 0), configure_status = c, start_status = t, history = []\<rparr>"

text \<open>
  \<^verbatim>\<open>Initialize\<close>. Its inputs from outside: \<open>demoVal\<close>, the value read from the Demo
  property; \<open>cpx_ok\<close>, whether \<^verbatim>\<open>cpx_init\<close> and \<^verbatim>\<open>cpx_device_manager\<close> gave non-null
  pointers; the statuses of \<^verbatim>\<open>getCpxProperties\<close> and of the two
  \<^verbatim>\<open>device_manager_select\<close> calls. The registration of the Binning, Mode and
  LineIntervalUs properties touches the host's property table only.
\<close>

definition Initialize ::
    "int \<Rightarrow> bool \<Rightarrow> CpxStatus \<Rightarrow> CpxStatus \<Rightarrow> CpxStatus \<Rightarrow> AcquireCamera \<Rightarrow> retcode \<times> AcquireCamera" where
  "Initialize demoVal cpx_ok ret_props ret_cam0 ret_cam1 s =
     (if initialized s then (DEVICE_OK, s)
      else (let s1 = setupBuffers (s\<lparr>demo := (demoVal = 1), multiChannel := True\<rparr>) in
            if \<not> cpx_ok then (ERR_CPX_INIT, s1)
            else if ret_props \<noteq> CpxStatus_Ok then (CpxCode ret_props, s1)
            else if ret_cam0 \<noteq> CpxStatus_Ok then (CpxCode ret_cam0, s1)
            else if ret_cam1 \<noteq> CpxStatus_Ok then (CpxCode ret_cam1, s1)
            else (DEVICE_OK, s1\<lparr>initialized := True\<rparr>)))"

subsection \<open>SnapImage\<close>

text \<open>
  \<^verbatim>\<open>SnapImage\<close> ignores the results of \<^verbatim>\<open>getCpxProperties\<close> and of the four
  \<^verbatim>\<open>device_manager_select\<close> calls; they fill in fields of the properties that the adapter
  does not read. \<open>video_props\<close> is what it writes for each of the two streams, from
  \<^verbatim>\<open>imgs[0]\<close>. Reading \<^verbatim>\<open>imgs[0]\<close> of an empty vector is undefined behaviour. The value
  \<^verbatim>\<open>readFrames\<close> returns is dropped.
\<close>

definition video_props :: "ImgBuffer \<Rightarrow> VideoProps" where
  "video_props b =
     \<lparr>binning = 1,
      pixel_type = (if Depth b = 2 then SampleType_u16 else SampleType_u8),
      shape = (Width b, Height b),
      max_frame_count = 1\<rparr>"

definition SnapImage :: "size_t \<Rightarrow> AcquireCamera \<Rightarrow> retcode result option" where
  "SnapImage sizeof_VideoFrame s =
     (case imgs s of
        [] \<Rightarrow> Some (Inl (IndexOutOfRange, s))
      | b # bs \<Rightarrow>
          (let (s1, ret) = cpx_configure s (video_props b, video_props b)
           in if ret \<noteq> CpxStatus_Ok
              then Some (Inr (ERR_CPX_CONFIURE_FAILED,
                              s1\<lparr>history := history s1 @ [LogMessage ''cpx_configure failed'']\<rparr>))
              else (let (s2, ret') = cpx_start s1
                    in if ret' \<noteq> CpxStatus_Ok
                       then Some (Inl (Exception ''cpx_start failed'', s2))
                       else (case readFrames sizeof_VideoFrame s2 of
                               None \<Rightarrow> None
                             | Some (Inl e) \<Rightarrow> Some (Inl e)
                             | Some (Inr (r, s3)) \<Rightarrow> Some (Inr (DEVICE_OK, cpx_stop s3))))))"

subsection \<open>The per-channel accessors\<close>

text \<open>
  Modelled from the spec: \<^verbatim>\<open>CDeviceUtils::CopyLimitedString\<close> and \<^verbatim>\<open>MM::MaxStrLength\<close>
  (MMDevice, not among the sources), the bounded string copy behind every name getter:
  the target receives the source, cut to \<open>MaxStrLength - 1\<close> characters.
\<close>

definition MaxStrLength :: nat where
  "MaxStrLength = 1024"

definition CopyLimitedString :: "string \<Rightarrow> string \<Rightarrow> string" where
  "CopyLimitedString target source = take (MaxStrLength - 1) source"

text \<open>
  \<^verbatim>\<open>channel > imgs.size() - 1\<close> compares in \<^verbatim>\<open>size_t\<close>: the subtraction wraps for an
  empty vector. A null pointer is \<open>None\<close>; \<^verbatim>\<open>imgs[channel]\<close> past the end is undefined
  behaviour.
\<close>

definition GetImageBuffer :: "AcquireCamera \<Rightarrow> unsigned \<Rightarrow> fault + byte list option" where
  "GetImageBuffer s channel =
     (if (ucast channel :: size_t) > of_nat (length (imgs s)) - 1 then Inr None
      else if unat channel < length (imgs s) then Inr (Some (pixels (imgs s ! unat channel)))
      else Inl IndexOutOfRange)"

definition GetChannelName :: "AcquireCamera \<Rightarrow> unsigned \<Rightarrow> string \<Rightarrow> retcode \<times> string" where
  "GetChannelName s channel name =
     (if (ucast channel :: size_t) > of_nat (length (imgs s)) - 1
      then (DEVICE_NONEXISTENT_CHANNEL, name)
      else (let chName = (if channel = 0 then ''Camera-1'' else ''Camera-2'')
            in (DEVICE_OK, CopyLimitedString name chName)))"

section \<open>The ASI device base class (ASIBase.h)\<close>

text \<open>
  Modelled from the spec: the device base class that \<^verbatim>\<open>ASIBase\<close> inherits from
  (\<^verbatim>\<open>TDeviceBase\<close>, that is \<^verbatim>\<open>CDeviceBase\<close> of MMDevice/DeviceBase.h, not among the
  sources), as far as \<^verbatim>\<open>ASIBase\<close> calls it: a table of named properties ("name
  property") and a table of error texts ("error-text registration"). \<^verbatim>\<open>CreateProperty\<close>
  adds a property unless one of that name exists; \<^verbatim>\<open>HasProperty\<close> tells whether one
  exists; \<^verbatim>\<open>GetProperty\<close> copies its value into the caller's buffer and otherwise leaves
  the buffer alone; \<^verbatim>\<open>SetErrorText\<close> stores one text. \<^verbatim>\<open>MM::g_Keyword_Name\<close> is the
  key of the name property.
\<close>

datatype PropertyType = Undef | String | Float | Integer

record Property =
  pvalue :: string
  ptype :: PropertyType
  readOnly :: bool

record DeviceBase =
  properties :: "string \<rightharpoonup> Property"
  messages :: "int \<rightharpoonup> string"

definition g_Keyword_Name :: string where
  "g_Keyword_Name = ''Name''"

definition CreateProperty ::
    "'a DeviceBase_scheme \<Rightarrow> string \<Rightarrow> string \<Rightarrow> PropertyType \<Rightarrow> bool \<Rightarrow> retcode \<times> 'a DeviceBase_scheme" where
  "CreateProperty d name v t ro =
     (case properties d name of
        Some p \<Rightarrow> (DEVICE_DUPLICATE_PROPERTY, d)
      | None \<Rightarrow>
          (DEVICE_OK,
           d\<lparr>properties := (properties d)(name \<mapsto> \<lparr>pvalue = v, ptype = t, readOnly = ro\<rparr>)\<rparr>))"

definition HasProperty :: "'a DeviceBase_scheme \<Rightarrow> string \<Rightarrow> bool" where
  "HasProperty d name = (properties d name \<noteq> None)"

definition GetProperty :: "'a DeviceBase_scheme \<Rightarrow> string \<Rightarrow> string \<Rightarrow> retcode \<times> string" where
  "GetProperty d name buf =
     (case properties d name of
        None \<Rightarrow> (DEVICE_INVALID_PROPERTY, buf)
      | Some p \<Rightarrow> (DEVICE_OK, CopyLimitedString buf (pvalue p)))"

definition SetErrorText :: "'a DeviceBase_scheme \<Rightarrow> int \<Rightarrow> string \<Rightarrow> 'a DeviceBase_scheme" where
  "SetErrorText d code text = d\<lparr>messages := (messages d)(code \<mapsto> text)\<rparr>"

text \<open>
  \<^verbatim>\<open>InitializeDefaultErrorMessages\<close> of the base class and \<^verbatim>\<open>InitializeASIErrorMessages\<close>
  register error texts. The codes and texts (MMDeviceConstants.h, ASITiger.h) are not among
  the sources: each routine takes its table as an argument. The first clears the table
  before it registers its own.
\<close>

definition InitializeDefaultErrorMessages ::
    "(int \<times> string) list \<Rightarrow> 'a DeviceBase_scheme \<Rightarrow> 'a DeviceBase_scheme" where
  "InitializeDefaultErrorMessages defaults d =
     foldl (\<lambda>d' (code, text). SetErrorText d' code text) (d\<lparr>messages := Map.empty\<rparr>) defaults"

definition InitializeASIErrorMessages ::
    "(int \<times> string) list \<Rightarrow> 'a DeviceBase_scheme \<Rightarrow> 'a DeviceBase_scheme" where
  "InitializeASIErrorMessages asi d =
     foldl (\<lambda>d' (code, text). SetErrorText d' code text) d asi"

text \<open>The fields \<^verbatim>\<open>ASIBase\<close> adds to its base class.\<close>

record ASIBase = DeviceBase +
  asi_initialized :: bool
  refreshProps :: bool
  firmwareVersion :: real
  firmwareDate :: string
  firmwareBuild :: string
  ret :: retcode

text \<open>
  The constructor, run on the object \<open>base\<close> that the base class constructor left: the
  member initialisers (the two strings start empty), the two message routines, and the
  Name property unless \<^verbatim>\<open>strcmp(name, "") == 0\<close>.
\<close>

definition ASIBase_ctor ::
    "(int \<times> string) list \<Rightarrow> (int \<times> string) list \<Rightarrow> DeviceBase \<Rightarrow> string \<Rightarrow> ASIBase" where
  "ASIBase_ctor defaults asi base name =
     (let d0 = DeviceBase.extend base
                 (ASIBase.fields False False 0 [] [] DEVICE_OK);
          d1 = InitializeDefaultErrorMessages defaults d0;
          d2 = InitializeASIErrorMessages asi d1
      in if name \<noteq> [] then snd (CreateProperty d2 g_Keyword_Name name String True) else d2)"

definition Shutdown :: "ASIBase \<Rightarrow> retcode \<times> ASIBase" where
  "Shutdown d = (DEVICE_OK, d\<lparr>asi_initialized := False\<rparr>)"

text \<open>
  \<^verbatim>\<open>GetName\<close>: \<open>name\<close> is the local array as it is found (never initialised), the
  result is what \<^verbatim>\<open>pszName\<close> holds afterwards.
\<close>

definition GetName :: "ASIBase \<Rightarrow> string \<Rightarrow> string \<Rightarrow> string" where
  "GetName d name pszName =
     (let name' = (if HasProperty d g_Keyword_Name
                   then snd (GetProperty d g_Keyword_Name name)
                   else ''Undefined'')
      in CopyLimitedString pszName name')"

section \<open>Vocabulary of the properties\<close>

text \<open>The payload of a frame: the bytes the adapter copies out of it.\<close>

definition payload :: "size_t \<Rightarrow> VideoFrame \<Rightarrow> byte list" where
  "payload sizeof_VideoFrame f = map (data f) [0..<unat (bytes_of_frame f - sizeof_VideoFrame)]"

text \<open>
  From state \<open>s\<close> on, the next \<open>K\<close> calls of \<^verbatim>\<open>cpx_map_read\<close> on the stream return
  \<^verbatim>\<open>beg == end\<close>, and the call after them does not.
\<close>

definition ready_after :: "AcquireCamera \<Rightarrow> nat \<Rightarrow> nat \<Rightarrow> bool" where
  "ready_after s stream K \<longleftrightarrow>
     (\<forall>j \<in> set [0..<K]. beg (feed s stream (polls s stream + j)) =
                         fin (feed s stream (polls s stream + j))) \<and>
     beg (feed s stream (polls s stream + K)) \<noteq> fin (feed s stream (polls s stream + K))"

text \<open>The state after \<open>k\<close> more calls of \<^verbatim>\<open>cpx_map_read\<close> on a stream.\<close>

definition polled :: "nat \<Rightarrow> nat \<Rightarrow> AcquireCamera \<Rightarrow> AcquireCamera" where
  "polled stream k s =
     s\<lparr>polls := (polls s)(stream := polls s stream + k),
       history := history s @ replicate k (MapRead stream)\<rparr>"

text \<open>
  Frames and views to run the adapter on: the frame that carries the payload \<open>bs\<close>
  behind a header of \<open>sizeof_VideoFrame\<close> bytes, the view at address \<open>a\<close> that holds
  this one frame, and the view at \<open>a\<close> that holds nothing.
\<close>

definition frame_of :: "size_t \<Rightarrow> byte list \<Rightarrow> VideoFrame" where
  "frame_of sizeof_VideoFrame bs =
     \<lparr>bytes_of_frame = sizeof_VideoFrame + of_nat (length bs),
      data = (\<lambda>i. if i < length bs then bs ! i else 0)\<rparr>"

definition view_of :: "size_t \<Rightarrow> size_t \<Rightarrow> byte list \<Rightarrow> FrameView" where
  "view_of sizeof_VideoFrame a bs =
     \<lparr>beg = a, fin = a + (sizeof_VideoFrame + of_nat (length bs)),
      at_beg = frame_of sizeof_VideoFrame bs\<rparr>"

definition no_frames :: "size_t \<Rightarrow> FrameView" where
  "no_frames a = \<lparr>beg = a, fin = a, at_beg = frame_of 0 []\<rparr>"

text \<open>
  The adapter as the host gets it ready: constructed, initialised with the Demo property
  reading 1 and every call into the runtime succeeding, then the Mode property set.
\<close>

definition camera_in_mode ::
    "(nat \<Rightarrow> nat \<Rightarrow> FrameView) \<Rightarrow> CpxStatus \<Rightarrow> CpxStatus \<Rightarrow> string \<Rightarrow> AcquireCamera" where
  "camera_in_mode f c t mode =
     fst (snd (OnImageMode
       (snd (Initialize 1 True CpxStatus_Ok CpxStatus_Ok CpxStatus_Ok (AcquireCamera0 f c t)))
       mode AfterSet))"

text \<open>The state in which a run returned normally, if it did.\<close>

definition returned :: "'a result option \<Rightarrow> AcquireCamera option" where
  "returned r = (case r of Some (Inr (x, s')) \<Rightarrow> Some s' | _ \<Rightarrow> None)"

text \<open>The fault a run ended in, if it did.\<close>

definition faulted :: "'a result option \<Rightarrow> fault option" where
  "faulted r = (case r of Some (Inl (e, s')) \<Rightarrow> Some e | _ \<Rightarrow> None)"

text \<open>Width, height and depth of a buffer.\<close>

definition dims :: "ImgBuffer \<Rightarrow> unsigned \<times> unsigned \<times> unsigned" where
  "dims b = (Width b, Height b, Depth b)"

section \<open>The polling loop\<close>

lemma await_frame_ready: "beg v \<noteq> fin v \<Longrightarrow> await_frame stream s v = Some (s, v)"
  by (subst await_frame.simps) simp

lemma polled_map_read: "polled stream k (fst (cpx_map_read s stream)) = polled stream (Suc k) s"
  by (simp add: polled_def cpx_map_read_def replicate_append_same fun_eq_iff)

lemma ready_after_0:
  "ready_after s stream 0 \<longleftrightarrow> beg (feed s stream (polls s stream)) \<noteq> fin (feed s stream (polls s stream))"
  by (simp add: ready_after_def)

lemma ready_after_Suc:
  "ready_after s stream (Suc K) \<longleftrightarrow>
     beg (feed s stream (polls s stream)) = fin (feed s stream (polls s stream)) \<and>
     ready_after (fst (cpx_map_read s stream)) stream K"
proof -
  have a: "(\<forall>j\<in>set [0..<n]. P j) \<longleftrightarrow> (\<forall>j<n. P j)" for P :: "nat \<Rightarrow> bool" and n
    by auto
  have b: "(\<forall>j<Suc K. P j) \<longleftrightarrow> P 0 \<and> (\<forall>j<K. P (Suc j))" for P :: "nat \<Rightarrow> bool"
    by (metis less_Suc_eq_0_disj Suc_less_eq zero_less_Suc)
  show ?thesis
    unfolding ready_after_def a b by (simp add: cpx_map_read_def)
qed

lemma snd_map_read: "snd (cpx_map_read s stream) = feed s stream (polls s stream)"
  by (simp add: cpx_map_read_def)

lemma await_frame_after:
  "ready_after s stream K \<Longrightarrow> beg v = fin v \<Longrightarrow>
   await_frame stream s v = Some (polled stream (Suc K) s, feed s stream (polls s stream + K))"
proof (induction K arbitrary: s v)
  case 0
  then show ?case
    by (subst await_frame.simps)
       (simp add: ready_after_0 cpx_map_read_def await_frame_ready polled_def)
next
  case (Suc K)
  let ?s' = "fst (cpx_map_read s stream)" and ?v' = "snd (cpx_map_read s stream)"
  from Suc.prems(1) have v': "beg ?v' = fin ?v'" and r: "ready_after ?s' stream K"
    by (simp_all add: ready_after_Suc snd_map_read)
  have "await_frame stream s v = await_frame stream ?s' ?v'"
    using Suc.prems(2) by (subst await_frame.simps) (simp add: split_def)
  also have "\<dots> = Some (polled stream (Suc K) ?s', feed ?s' stream (polls ?s' stream + K))"
    by (rule Suc.IH [OF r v'])
  also have "\<dots> = Some (polled stream (Suc (Suc K)) s, feed s stream (polls s stream + Suc K))"
    by (simp add: polled_map_read) (simp add: cpx_map_read_def)
  finally show ?case .
qed

lemma acquire_after:
  assumes "ready_after s stream K"
  shows "acquire stream s = Some (polled stream (Suc K) s, feed s stream (polls s stream + K))"
proof (cases K)
  case 0
  with assms show ?thesis
    by (simp add: acquire_def split_def snd_map_read ready_after_0 await_frame_ready
          polled_map_read [of stream 0, symmetric])
       (simp add: polled_def)
next
  case (Suc K')
  let ?s' = "fst (cpx_map_read s stream)" and ?v' = "snd (cpx_map_read s stream)"
  from assms Suc have v': "beg ?v' = fin ?v'" and r: "ready_after ?s' stream K'"
    by (simp_all add: ready_after_Suc snd_map_read)
  show ?thesis
    unfolding acquire_def split_def await_frame_after [OF r v'] Suc
    by (simp add: polled_map_read) (simp add: cpx_map_read_def)
qed

lemma await_frame_Some:
  assumes "await_frame stream s v = Some y"
  shows "\<exists>k. fst y = polled stream k s \<and> beg (snd y) \<noteq> fin (snd y) \<and>
       (k = 0 \<and> snd y = v \<or>
        0 < k \<and> beg v = fin v \<and> ready_after s stream (k - 1) \<and>
          snd y = feed s stream (polls s stream + (k - 1)))"
  using assms
proof (induct stream s v y rule: await_frame.raw_induct [rotated 1, consumes 1])
  case (1 f stream s v y)
  show ?case
  proof (cases "beg v = fin v")
    case False
    with 1(2) show ?thesis
      by (intro exI [of _ 0]) (auto simp: polled_def)
  next
    case True
    let ?s1 = "fst (cpx_map_read s stream)" and ?v1 = "snd (cpx_map_read s stream)"
    from True 1(2) have "f stream ?s1 ?v1 = Some y"
      by (simp add: split_def)
    from 1(1) [OF this] obtain k where k: "fst y = polled stream k ?s1" "beg (snd y) \<noteq> fin (snd y)"
      "k = 0 \<and> snd y = ?v1 \<or> 0 < k \<and> beg ?v1 = fin ?v1 \<and> ready_after ?s1 stream (k - 1) \<and> snd y = feed ?s1 stream (polls ?s1 stream + (k - 1))"
      by blast
    show ?thesis
    proof (intro exI [of _ "Suc k"] conjI disjI2)
      show "fst y = polled stream (Suc k) s" using k(1) by (simp add: polled_map_read)
      show "beg (snd y) \<noteq> fin (snd y)" by fact
      show "0 < Suc k" by simp
      show "beg v = fin v" by fact
      from k(3) show "ready_after s stream (Suc k - 1)"
      proof
        assume "k = 0 \<and> snd y = ?v1"
        with k(2) show ?thesis by (simp add: ready_after_0 snd_map_read)
      next
        assume a: "0 < k \<and> beg ?v1 = fin ?v1 \<and> ready_after ?s1 stream (k - 1) \<and> snd y = feed ?s1 stream (polls ?s1 stream + (k - 1))"
        then obtain k' where "k = Suc k'" by (cases k) auto
        with a show ?thesis by (simp add: ready_after_Suc [of s stream k'] snd_map_read)
      qed
      from k(3) show "snd y = feed s stream (polls s stream + (Suc k - 1))"
      proof
        assume "k = 0 \<and> snd y = ?v1"
        then show ?thesis by (simp add: snd_map_read)
      next
        assume a: "0 < k \<and> beg ?v1 = fin ?v1 \<and> ready_after ?s1 stream (k - 1) \<and> snd y = feed ?s1 stream (polls ?s1 stream + (k - 1))"
        then obtain k' where "k = Suc k'" by (cases k) auto
        with a show ?thesis by (simp add: cpx_map_read_def)
      qed
    qed
  qed
qed

lemma acquire_Some:
  assumes "acquire stream s = Some (s', v')"
  shows "\<exists>K. ready_after s stream K \<and> s' = polled stream (Suc K) s \<and>
             v' = feed s stream (polls s stream + K)"
proof -
  let ?s1 = "fst (cpx_map_read s stream)" and ?v1 = "snd (cpx_map_read s stream)"
  from assms have "await_frame stream ?s1 ?v1 = Some (s', v')"
    by (simp add: acquire_def split_def)
  from await_frame_Some [OF this] obtain k where k: "s' = polled stream k ?s1" "beg v' \<noteq> fin v'"
      "k = 0 \<and> v' = ?v1 \<or> 0 < k \<and> beg ?v1 = fin ?v1 \<and> ready_after ?s1 stream (k - 1) \<and> v' = feed ?s1 stream (polls ?s1 stream + (k - 1))"
    by auto
  from k(3) show ?thesis
  proof
    assume "k = 0 \<and> v' = ?v1"
    with k(1,2) show ?thesis
      by (intro exI [of _ 0]) (simp add: ready_after_0 snd_map_read polled_map_read)
  next
    assume a: "0 < k \<and> beg ?v1 = fin ?v1 \<and> ready_after ?s1 stream (k - 1) \<and> v' = feed ?s1 stream (polls ?s1 stream + (k - 1))"
    then obtain k' where k': "k = Suc k'" by (cases k) auto
    with a k(1) show ?thesis
      by (intro exI [of _ k]) (simp add: ready_after_Suc [of s stream k'] snd_map_read polled_map_read, simp add: cpx_map_read_def)
  qed
qed

section \<open>Copy and release\<close>

lemma polled_fields [simp]:
  "imgs (polled stream k s) = imgs s"
  "multiChannel (polled stream k s) = multiChannel s"
  "feed (polled stream k s) = feed s"
  "history (polled stream k s) = history s @ replicate k (MapRead stream)"
  "polls (polled stream k s) stream = polls s stream + k"
  "stream' \<noteq> stream \<Longrightarrow> polls (polled stream k s) stream' = polls s stream'"
  by (simp_all add: polled_def)

lemma ready_after_cong:
  "feed s' = feed s \<Longrightarrow> polls s' stream = polls s stream \<Longrightarrow>
   ready_after s' stream K = ready_after s stream K"
  by (simp add: ready_after_def)

lemma length_payload [simp]:
  "length (payload hdr f) = unat (bytes_of_frame f - hdr)"
  by (simp add: payload_def)

lemma store_fits:
  assumes "i < length (imgs s)"
    and "off + length (payload hdr (at_beg v)) \<le> length (pixels (imgs s ! i))"
  shows "store hdr v stream i off s =
     Inr (0, s\<lparr>imgs := (imgs s)[i := (imgs s ! i)\<lparr>pixels :=
                   take off (pixels (imgs s ! i)) @ payload hdr (at_beg v) @
                   drop (off + length (payload hdr (at_beg v))) (pixels (imgs s ! i))\<rparr>],
               history := history s @
                   [Memcpy i off (length (payload hdr (at_beg v))),
                    UnmapRead stream (ucast (fin v - beg v))]\<rparr>)"
  using assms
  by (simp add: store_def copy_frame_def memcpy_def payload_def release_def
        cpx_unmap_read_def consumed_bytes_def Let_def)

lemma store_Inr:
  assumes "store hdr v stream i off s = Inr (r, s')"
  shows "history s' = history s @ [Memcpy i off (length (payload hdr (at_beg v))),
                    UnmapRead stream (ucast (fin v - beg v))]"
  using assms
  by (auto simp: store_def copy_frame_def memcpy_def payload_def release_def
        cpx_unmap_read_def consumed_bytes_def Let_def split: if_splits option.splits)

lemma store_Inl:
  assumes "store hdr v stream i off s = Inl (e, s')"
  shows "s' = s"
  using assms
  by (auto simp: store_def copy_frame_def memcpy_def payload_def release_def
        cpx_unmap_read_def consumed_bytes_def Let_def split: if_splits option.splits)

lemma readFrame_run:
  assumes "ready_after s stream K"
    and "v = feed s stream (polls s stream + K)"
    and "stream < length (imgs s)"
    and "length (payload hdr (at_beg v)) \<le> length (pixels (imgs s ! stream))"
  shows "readFrame hdr stream s =
     Some (Inr (0, (polled stream (Suc K) s)
              \<lparr>imgs := (imgs s)[stream := (imgs s ! stream)\<lparr>pixels :=
                   payload hdr (at_beg v) @
                   drop (length (payload hdr (at_beg v))) (pixels (imgs s ! stream))\<rparr>],
               history := history s @ replicate (Suc K) (MapRead stream) @
                   [Memcpy stream 0 (length (payload hdr (at_beg v))),
                    UnmapRead stream (ucast (fin v - beg v))]\<rparr>))"
proof -
  have "store hdr v stream stream 0 (polled stream (Suc K) s) =
     Inr (0, (polled stream (Suc K) s)
              \<lparr>imgs := (imgs s)[stream := (imgs s ! stream)\<lparr>pixels :=
                   payload hdr (at_beg v) @
                   drop (length (payload hdr (at_beg v))) (pixels (imgs s ! stream))\<rparr>],
               history := history s @ replicate (Suc K) (MapRead stream) @
                   [Memcpy stream 0 (length (payload hdr (at_beg v))),
                    UnmapRead stream (ucast (fin v - beg v))]\<rparr>)"
    using assms(3,4) by (subst store_fits) simp_all
  then show ?thesis
    using acquire_after [OF assms(1)] assms(2) by (simp add: readFrame_def)
qed

lemma payload_frame_of: "length bs < 2 ^ 64 \<Longrightarrow> payload hdr (frame_of hdr bs) = bs"
proof -
  assume "length bs < 2 ^ 64"
  then have "unat (of_nat (length bs) :: size_t) = length bs"
    by (simp add: unat_of_nat)
  moreover have "map (\<lambda>i. if i < length bs then bs ! i else 0) [0..<length bs] = map ((!) bs) [0..<length bs]"
    by (rule map_cong) simp_all
  ultimately show ?thesis
    by (simp add: payload_def frame_of_def map_nth)
qed

lemma second_half_pixels [simp]: "second_half (b\<lparr>pixels := px\<rparr>) = second_half b"
  by (simp add: second_half_def)

lemma unat_ucast_unsigned: "unat (ucast w :: size_t) = unat w" for w :: unsigned
proof -
  have "unat w < 2 ^ 32"
    using unsigned_less [of w, where 'a = nat] by simp
  then have "unat w < 2 ^ 64"
    by simp
  then show ?thesis
    by (simp add: unsigned_ucast_eq take_bit_nat_eq_self)
qed

lemma second_half_mod:
  "second_half b = unat (Width b) * unat (Height b) * unat (Depth b) mod 2 ^ 64 div 2"
  by (simp add: second_half_def unat_div unat_word_ariths unat_ucast_unsigned mod_mult_left_eq)

lemma second_half_eq:
  assumes "unat (Width b) * unat (Height b) * unat (Depth b) < 2 ^ 64"
  shows "second_half b = unat (Width b) * unat (Height b) * unat (Depth b) div 2"
  using assms by (simp add: second_half_mod)

text \<open>The adapter made ready in each mode, written out.\<close>

lemma camera_in_mode_Single:
  "camera_in_mode f c t ''Single'' =
     \<lparr>initialized = True, multiChannel = False, demo = True,
      imgs = [\<lparr>Width = 640, Height = 960, Depth = 1, pixels = replicate 614400 0\<rparr>],
      feed = f, polls = (\<lambda>stream. 0), configure_status = c, start_status = t, history = []\<rparr>"
  by (simp add: camera_in_mode_def OnImageMode_def Initialize_def AcquireCamera0_def
        setupBuffers_def Resize_def ImgBuffer0_def DEMO_IMAGE_WIDTH_def DEMO_IMAGE_HEIGHT_def
        g_prop_Mode_Multi_def)

lemma camera_in_mode_Multi:
  "camera_in_mode f c t ''Multi'' =
     \<lparr>initialized = True, multiChannel = True, demo = True,
      imgs = [\<lparr>Width = 640, Height = 480, Depth = 1, pixels = replicate 307200 0\<rparr>,
              \<lparr>Width = 640, Height = 480, Depth = 1, pixels = replicate 307200 0\<rparr>],
      feed = f, polls = (\<lambda>stream. 0), configure_status = c, start_status = t, history = []\<rparr>"
  by (simp add: camera_in_mode_def OnImageMode_def Initialize_def AcquireCamera0_def
        setupBuffers_def Resize_def ImgBuffer0_def DEMO_IMAGE_WIDTH_def DEMO_IMAGE_HEIGHT_def
        g_prop_Mode_Multi_def)

lemma store_overrun:
  assumes "i < length (imgs s)"
    and "length (pixels (imgs s ! i)) < off + length (payload hdr (at_beg v))"
  shows "store hdr v stream i off s = Inl (BufferOverrun, s)"
  using assms
  by (simp add: store_def copy_frame_def memcpy_def Let_def)

lemma view_of_simps [simp]:
  "beg (view_of hdr a bs) = a"
  "fin (view_of hdr a bs) = a + (hdr + of_nat (length bs))"
  "at_beg (view_of hdr a bs) = frame_of hdr bs"
  by (simp_all add: view_of_def)

section \<open>The composite read\<close>

lemma readFrames_first:
  assumes b: "imgs s = b # bs"
    and r0: "ready_after s 0 K0" and v0: "v0 = feed s 0 (polls s 0 + K0)"
    and r1: "ready_after s 1 K1" and v1: "v1 = feed s 1 (polls s 1 + K1)"
    and p0: "p0 = payload hdr (at_beg v0)"
    and f0: "length p0 \<le> length (pixels b)"
    and px: "px = p0 @ drop (length p0) (pixels b)"
  shows "readFrames hdr s =
     Some (second_frame hdr v1
       (polled 1 (Suc K1)
         ((polled 0 (Suc K0) s)
            \<lparr>imgs := b\<lparr>pixels := px\<rparr> # bs,
             history := history s @ replicate (Suc K0) (MapRead 0) @
               [Memcpy 0 0 (length p0), UnmapRead 0 (ucast (fin v0 - beg v0))]\<rparr>)))"
proof -
  let ?s0 = "polled 0 (Suc K0) s"
  let ?s1 = "?s0\<lparr>imgs := b\<lparr>pixels := px\<rparr> # bs,
                  history := history s @ replicate (Suc K0) (MapRead 0) @
                    [Memcpy 0 0 (length p0), UnmapRead 0 (ucast (fin v0 - beg v0))]\<rparr>"
  let ?s2 = "polled 1 (Suc K1) ?s1"
  have a0: "acquire 0 s = Some (?s0, v0)"
    using acquire_after [OF r0] v0 by simp
  have st0: "store hdr v0 0 0 0 ?s0 = Inr (0, ?s1)"
    using b f0 p0 px by (subst store_fits) simp_all
  have "ready_after ?s1 1 K1 = ready_after s 1 K1"
    by (rule ready_after_cong) simp_all
  with r1 have "ready_after ?s1 1 K1"
    by simp
  from acquire_after [OF this] have a1: "acquire 1 ?s1 = Some (?s2, v1)"
    using v1 by simp
  show ?thesis
    by (simp only: readFrames_def a0 st0 a1 option.case prod.case sum.case option.map)
qed

lemma readFrames_single:
  assumes m: "\<not> multiChannel s" and b: "imgs s = b # bs"
    and r0: "ready_after s 0 K0" and v0: "v0 = feed s 0 (polls s 0 + K0)"
    and r1: "ready_after s 1 K1" and v1: "v1 = feed s 1 (polls s 1 + K1)"
    and p0: "p0 = payload hdr (at_beg v0)" and p1: "p1 = payload hdr (at_beg v1)"
    and f0: "length p0 \<le> length (pixels b)"
    and f1: "second_half b + length p1 \<le> length (pixels b)"
    and px: "px = p0 @ drop (length p0) (pixels b)"
  shows "\<exists>s'. readFrames hdr s = Some (Inr (0, s')) \<and>
           imgs s' = b\<lparr>pixels := take (second_half b) px @ p1 @
                                    drop (second_half b + length p1) px\<rparr> # bs \<and>
           history s' = history s @
             replicate (Suc K0) (MapRead 0) @
             [Memcpy 0 0 (length p0), UnmapRead 0 (ucast (fin v0 - beg v0))] @
             replicate (Suc K1) (MapRead 1) @
             [Memcpy 0 (second_half b) (length p1), UnmapRead 1 (ucast (fin v1 - beg v1))]"
proof -
  let ?s2 = "polled 1 (Suc K1)
         ((polled 0 (Suc K0) s)
            \<lparr>imgs := b\<lparr>pixels := px\<rparr> # bs,
             history := history s @ replicate (Suc K0) (MapRead 0) @
               [Memcpy 0 0 (length p0), UnmapRead 0 (ucast (fin v0 - beg v0))]\<rparr>)"
  have len: "length px = length (pixels b)"
    using f0 px by simp
  have "second_frame hdr v1 ?s2 =
      Inr (0, ?s2\<lparr>imgs := b\<lparr>pixels := take (second_half b) px @ p1 @
                                    drop (second_half b + length p1) px\<rparr> # bs,
          history := history ?s2 @ [Memcpy 0 (second_half b) (length p1), UnmapRead 1 (ucast (fin v1 - beg v1))]\<rparr>)"
    using m f1 p1 len by (simp add: second_frame_def) (subst store_fits, simp_all)
  then show ?thesis
    unfolding readFrames_first [OF b r0 v0 r1 v1 p0 f0 px] by simp
qed

lemma readFrames_single_overrun:
  assumes m: "\<not> multiChannel s" and b: "imgs s = b # bs"
    and r0: "ready_after s 0 K0" and v0: "v0 = feed s 0 (polls s 0 + K0)"
    and r1: "ready_after s 1 K1" and v1: "v1 = feed s 1 (polls s 1 + K1)"
    and f0: "length (payload hdr (at_beg v0)) \<le> length (pixels b)"
    and f1: "length (pixels b) < second_half b + length (payload hdr (at_beg v1))"
  shows "\<exists>s'. readFrames hdr s = Some (Inl (BufferOverrun, s')) \<and>
           history s' = history s @ replicate (Suc K0) (MapRead 0) @
             [Memcpy 0 0 (length (payload hdr (at_beg v0))),
              UnmapRead 0 (ucast (consumed_bytes (beg v0) (fin v0)))] @
             replicate (Suc K1) (MapRead 1) \<and>
           imgs s' = b\<lparr>pixels := payload hdr (at_beg v0) @
             drop (length (payload hdr (at_beg v0))) (pixels b)\<rparr> # bs"
proof -
  let ?px = "payload hdr (at_beg v0) @ drop (length (payload hdr (at_beg v0))) (pixels b)"
  let ?s2 = "polled 1 (Suc K1)
         ((polled 0 (Suc K0) s)
            \<lparr>imgs := b\<lparr>pixels := ?px\<rparr> # bs,
             history := history s @ replicate (Suc K0) (MapRead 0) @
               [Memcpy 0 0 (length (payload hdr (at_beg v0))), UnmapRead 0 (ucast (fin v0 - beg v0))]\<rparr>)"
  have "second_frame hdr v1 ?s2 = Inl (BufferOverrun, ?s2)"
    using m f0 f1 by (simp add: second_frame_def) (subst store_overrun, simp_all)
  then show ?thesis
    unfolding readFrames_first [OF b r0 v0 r1 v1 refl f0 refl]
    by (simp add: consumed_bytes_def)
qed

lemma readFrames_multi:
  assumes m: "multiChannel s" and b: "imgs s = b # c # bs"
    and r0: "ready_after s 0 K0" and v0: "v0 = feed s 0 (polls s 0 + K0)"
    and r1: "ready_after s 1 K1" and v1: "v1 = feed s 1 (polls s 1 + K1)"
    and p0: "p0 = payload hdr (at_beg v0)" and p1: "p1 = payload hdr (at_beg v1)"
    and f0: "length p0 \<le> length (pixels b)"
    and f1: "length p1 \<le> length (pixels c)"
  shows "\<exists>s'. readFrames hdr s = Some (Inr (0, s')) \<and>
           imgs s' = b\<lparr>pixels := p0 @ drop (length p0) (pixels b)\<rparr> #
                     c\<lparr>pixels := p1 @ drop (length p1) (pixels c)\<rparr> # bs \<and>
           history s' = history s @
             replicate (Suc K0) (MapRead 0) @
             [Memcpy 0 0 (length p0), UnmapRead 0 (ucast (fin v0 - beg v0))] @
             replicate (Suc K1) (MapRead 1) @
             [Memcpy 1 0 (length p1), UnmapRead 1 (ucast (fin v1 - beg v1))]"
proof -
  let ?px = "p0 @ drop (length p0) (pixels b)"
  let ?s2 = "polled 1 (Suc K1)
         ((polled 0 (Suc K0) s)
            \<lparr>imgs := b\<lparr>pixels := ?px\<rparr> # (c # bs),
             history := history s @ replicate (Suc K0) (MapRead 0) @
               [Memcpy 0 0 (length p0), UnmapRead 0 (ucast (fin v0 - beg v0))]\<rparr>)"
  have "second_frame hdr v1 ?s2 =
      Inr (0, ?s2\<lparr>imgs := b\<lparr>pixels := ?px\<rparr> # c\<lparr>pixels := p1 @ drop (length p1) (pixels c)\<rparr> # bs,
          history := history ?s2 @ [Memcpy 1 0 (length p1), UnmapRead 1 (ucast (fin v1 - beg v1))]\<rparr>)"
    using m f1 p1 by (simp add: second_frame_def) (subst store_fits, simp_all)
  then show ?thesis
    unfolding readFrames_first [OF b r0 v0 r1 v1 p0 f0 refl] by simp
qed

lemma second_frame_Inr:
  assumes "second_frame hdr v s = Inr (r, s')"
  shows "\<exists>i off. history s' = history s @
           [Memcpy i off (length (payload hdr (at_beg v))), UnmapRead 1 (ucast (fin v - beg v))]"
  using assms
  by (auto simp: second_frame_def split: if_splits list.splits dest: store_Inr)

lemma second_frame_Inl:
  assumes "second_frame hdr v s = Inl (e, s')"
  shows "s' = s"
  using assms
  by (auto simp: second_frame_def split: if_splits list.splits dest: store_Inl)

section \<open>Buffers, channels and names\<close>

lemma dims_Resize [simp]: "dims (Resize b w h d) = (w, h, d)"
  by (simp add: dims_def Resize_def)

lemma setupBuffers_demo:
  "demo s \<Longrightarrow> map dims (imgs (setupBuffers s)) =
     (if multiChannel s
      then [(DEMO_IMAGE_WIDTH, DEMO_IMAGE_HEIGHT, 1), (DEMO_IMAGE_WIDTH, DEMO_IMAGE_HEIGHT, 1)]
      else [(DEMO_IMAGE_WIDTH, 2 * DEMO_IMAGE_HEIGHT, 1)])"
  by (simp add: setupBuffers_def)

lemma setupBuffers_flags [simp]:
  "demo (setupBuffers s) = demo s"
  "multiChannel (setupBuffers s) = multiChannel s"
  by (simp_all add: setupBuffers_def)

lemma video_props_demo:
  "video_props \<lparr>Width = 640, Height = 480, Depth = 1, pixels = px\<rparr> =
     \<lparr>binning = 1, pixel_type = SampleType_u8, shape = (640, 480), max_frame_count = 1\<rparr>"
  by (simp add: video_props_def)

lemma channel_past_end:
  fixes c :: unsigned
  assumes "0 < n" and "n < 2 ^ 64"
  shows "((ucast c :: size_t) > of_nat n - 1) \<longleftrightarrow> n \<le> unat c"
proof -
  from assms obtain m where m: "n = Suc m"
    by (cases n) auto
  with assms(2) have "unat (of_nat m :: size_t) = m"
    by (simp add: unat_of_nat)
  then have "unat (of_nat n - 1 :: size_t) = n - 1"
    using m by simp
  then show ?thesis
    using assms(1) by (auto simp: word_less_nat_alt unat_ucast_unsigned)
qed

lemma properties_SetErrorText [simp]: "properties (SetErrorText d code text) = properties d"
  by (simp add: SetErrorText_def)

lemma properties_register:
  "properties (foldl (\<lambda>d' (code, text). SetErrorText d' code text) d tbl) = properties d"
  by (induction tbl arbitrary: d) (simp_all add: split_def)

lemma properties_ASIBase_ctor:
  "properties (ASIBase_ctor defaults asi base name) =
     (if name \<noteq> [] \<and> properties base g_Keyword_Name = None
      then (properties base)(g_Keyword_Name \<mapsto> \<lparr>pvalue = name, ptype = String, readOnly = True\<rparr>)
      else properties base)"
  by (simp add: ASIBase_ctor_def Let_def InitializeDefaultErrorMessages_def
        InitializeASIErrorMessages_def properties_register CreateProperty_def
        DeviceBase.extend_def split: option.splits)

lemma polls_polled: "polls (polled stream k s) = (polls s)(stream := polls s stream + k)"
  by (simp add: polled_def)

lemma SnapImage_started:
  assumes "imgs s = b # bs"
    and "configure_status s = CpxStatus_Ok" and "start_status s = CpxStatus_Ok"
  shows "SnapImage hdr s =
     (case readFrames hdr
             (s\<lparr>history := history s @ [Configure (video_props b, video_props b), Start]\<rparr>) of
        None \<Rightarrow> None
      | Some (Inl e) \<Rightarrow> Some (Inl e)
      | Some (Inr (r, s3)) \<Rightarrow> Some (Inr (DEVICE_OK, cpx_stop s3)))"
  using assms by (simp add: SnapImage_def cpx_configure_def cpx_start_def)

text \<open>
  Every run of \<^verbatim>\<open>readFrames\<close> that returns has made the steps of the composite read in
  their order, and a run that ends in undefined behaviour has made a prefix of them.
\<close>

lemma readFrames_history:
  assumes "readFrames hdr s = Some res"
  shows "\<exists>k0 k1 n0 m0.
     (case res of
        Inl (e, s') \<Rightarrow>
          history s' = history s @ replicate (Suc k0) (MapRead 0) \<or>
          history s' = history s @ replicate (Suc k0) (MapRead 0) @
            [Memcpy 0 0 n0, UnmapRead 0 m0] @ replicate (Suc k1) (MapRead 1)
      | Inr (r, s') \<Rightarrow>
          (\<exists>i off n1 m1.
             history s' = history s @ replicate (Suc k0) (MapRead 0) @
               [Memcpy 0 0 n0, UnmapRead 0 m0] @ replicate (Suc k1) (MapRead 1) @
               [Memcpy i off n1, UnmapRead 1 m1]))"
proof -
  from assms obtain s0 v0 where a0: "acquire 0 s = Some (s0, v0)"
    by (auto simp: readFrames_def split: option.splits)
  from acquire_Some [OF a0] obtain k0 where s0: "s0 = polled 0 (Suc k0) s"
    by blast
  show ?thesis
  proof (cases "store hdr v0 0 0 0 s0")
    case (Inl x)
    obtain e sx where x: "x = (e, sx)" by (cases x)
    with Inl store_Inl have "sx = s0" by blast
    with Inl x a0 assms have "res = Inl (e, s0)"
      by (simp add: readFrames_def)
    then show ?thesis
      using s0 by auto
  next
    case (Inr y)
    obtain r s1 where y: "y = (r, s1)" by (cases y)
    from Inr y store_Inr
    have h1: "history s1 = history s0 @ [Memcpy 0 0 (length (payload hdr (at_beg v0))),
                    UnmapRead 0 (ucast (fin v0 - beg v0))]"
      by blast
    from Inr y a0 assms obtain s2 v1 where a1: "acquire 1 s1 = Some (s2, v1)"
      and res: "res = second_frame hdr v1 s2"
      by (auto simp: readFrames_def)
    from acquire_Some [OF a1] obtain k1 where s2: "s2 = polled 1 (Suc k1) s1"
      by blast
    have h2: "history s2 = history s @ replicate (Suc k0) (MapRead 0) @
            [Memcpy 0 0 (length (payload hdr (at_beg v0))), UnmapRead 0 (ucast (fin v0 - beg v0))] @
            replicate (Suc k1) (MapRead 1)"
      using s0 s2 h1 by simp
    show ?thesis
    proof (cases res)
      case (Inl x)
      obtain e sx where x: "x = (e, sx)" by (cases x)
      with Inl res second_frame_Inl [of hdr v1 s2 e sx] have "sx = s2" by simp
      with Inl x h2 show ?thesis
        by (intro exI [of _ k0] exI [of _ k1] exI [of _ "length (payload hdr (at_beg v0))"]
              exI [of _ "ucast (fin v0 - beg v0)"]) simp
    next
      case (Inr z)
      obtain r' s3 where z: "z = (r', s3)" by (cases z)
      with Inr res second_frame_Inr [of hdr v1 s2 r' s3] obtain i off where
        "history s3 = history s2 @
           [Memcpy i off (length (payload hdr (at_beg v1))), UnmapRead 1 (ucast (fin v1 - beg v1))]"
        by auto
      with Inr z h2 show ?thesis
        by (intro exI [of _ k0] exI [of _ k1] exI [of _ "length (payload hdr (at_beg v0))"]
              exI [of _ "ucast (fin v0 - beg v0)"]) simp
    qed
  qed
qed

section \<open>The properties\<close>

text \<open>
  C6. Poll-then-copy: when the next \<open>K\<close> polls of a stream return \<^verbatim>\<open>beg == end\<close> and
  the poll after them returns a view that holds exactly one frame (the frame at \<^verbatim>\<open>beg\<close>
  ends at \<^verbatim>\<open>end\<close>), \<^verbatim>\<open>readFrame\<close> returns, for every \<open>K\<close>. It has then polled
  \<open>K + 1\<close> times, copied the payload of that frame once, to the start of the stream's
  buffer, and released once, the span of that poll, which is that one frame (the count
  passes through \<^verbatim>\<open>uint32_t\<close>); the rest of that buffer and the other buffers are as
  before. The stream must index an existing buffer and the payload
  must fit into it (otherwise the C++ is undefined).
\<close>

theorem readFrame_poll_then_copy:
  assumes "ready_after s stream K"
    and "v = feed s stream (polls s stream + K)"
    and "next_frame (beg v) (at_beg v) = fin v"
    and "stream < length (imgs s)"
    and "length (payload hdr (at_beg v)) \<le> length (pixels (imgs s ! stream))"
  shows "\<exists>s'. readFrame hdr stream s = Some (Inr (0, s')) \<and>
           imgs s' = (imgs s)[stream := (imgs s ! stream)\<lparr>pixels :=
             payload hdr (at_beg v) @
             drop (length (payload hdr (at_beg v))) (pixels (imgs s ! stream))\<rparr>] \<and>
           history s' = history s @ replicate (Suc K) (MapRead stream) @
             [Memcpy stream 0 (length (payload hdr (at_beg v))),
              UnmapRead stream (ucast (consumed_bytes (beg v) (fin v)))] \<and>
           consumed_bytes (beg v) (fin v) = bytes_of_frame (at_beg v) \<and>
           polls s' stream = polls s stream + Suc K"
proof -
  from assms(3) have "fin v = beg v + bytes_of_frame (at_beg v)"
    by (simp add: next_frame_def)
  then have "consumed_bytes (beg v) (fin v) = bytes_of_frame (at_beg v)"
    by (simp add: consumed_bytes_def)
  with readFrame_run [OF assms(1,2,4,5)] assms(4) show ?thesis
    by (simp add: consumed_bytes_def)
qed

theorem readFrame_poll_then_copy_witness:
  "ready_after (setupBuffers (AcquireCamera0 (\<lambda>stream k. if k < 3 then no_frames 4096 else view_of 64 4096 [1, 2, 3, 4]) CpxStatus_Ok CpxStatus_Ok)) 0 3 \<and>
   (\<exists>s'. readFrame 64 0 (setupBuffers (AcquireCamera0 (\<lambda>stream k. if k < 3 then no_frames 4096 else view_of 64 4096 [1, 2, 3, 4]) CpxStatus_Ok CpxStatus_Ok)) = Some (Inr (0, s')) \<and>
      imgs s' = [\<lparr>Width = 640, Height = 480, Depth = 1, pixels = [1, 2, 3, 4] @ replicate 307196 0\<rparr>,
                 \<lparr>Width = 640, Height = 480, Depth = 1, pixels = replicate 307200 0\<rparr>] \<and>
      history s' = [MapRead 0, MapRead 0, MapRead 0, MapRead 0, Memcpy 0 0 4, UnmapRead 0 68] \<and>
      polls s' 0 = 4)"
proof -
  let ?s = "setupBuffers (AcquireCamera0 (\<lambda>stream k. if k < 3 then no_frames 4096 else view_of 64 4096 [1, 2, 3, 4]) CpxStatus_Ok CpxStatus_Ok)"
  let ?v = "view_of 64 4096 [1, 2, 3, 4]"
  have s: "imgs ?s = [Resize ImgBuffer0 640 480 1, Resize ImgBuffer0 640 480 1]"
     "polls ?s 0 = 0" "history ?s = []"
     "feed ?s = (\<lambda>stream k. if k < 3 then no_frames 4096 else view_of 64 4096 [1, 2, 3, 4])"
    by (simp_all add: setupBuffers_def AcquireCamera0_def DEMO_IMAGE_WIDTH_def DEMO_IMAGE_HEIGHT_def)
  have p: "payload 64 (at_beg ?v) = [1, 2, 3, 4]"
    by (simp add: view_of_def payload_frame_of)
  have h1: "ready_after ?s 0 3"
    by (simp add: ready_after_def s no_frames_def view_of_def)
  have h2: "?v = feed ?s 0 (polls ?s 0 + 3)"
    by (simp add: s)
  have h3: "next_frame (beg ?v) (at_beg ?v) = fin ?v"
    by (simp add: next_frame_def view_of_def frame_of_def)
  have h4: "0 < length (imgs ?s)"
    by (simp add: s)
  have h5: "length (payload 64 (at_beg ?v)) \<le> length (pixels (imgs ?s ! 0))"
    unfolding p by (simp add: s Resize_def)
  have r: "replicate (Suc 3) x = [x, x, x, x]" for x :: event
    by (simp add: numeral_eq_Suc)
  have n: "length [1, 2, 3, 4 :: byte] = 4"
    by simp
  have c: "consumed_bytes (beg ?v) (fin ?v) = 68"
    by (simp add: consumed_bytes_def)
  from readFrame_poll_then_copy [OF h1 h2 h3 h4 h5] h1 show ?thesis
    unfolding p r n c by (simp add: s Resize_def ImgBuffer0_def frame_of_def)
qed

text \<open>
  C2, as the adapter has it. Consumed-bytes accounting of \<^verbatim>\<open>readFrame\<close>: after the
  poll that finds \<^verbatim>\<open>beg != end\<close>, the routine copies \<^verbatim>\<open>bytes_of_frame - sizeof(VideoFrame)\<close>
  bytes of the frame at \<^verbatim>\<open>beg\<close> to the start of the stream's buffer and calls
  \<^verbatim>\<open>cpx_unmap_read\<close> once, with the span \<^verbatim>\<open>end - beg\<close> narrowed to \<^verbatim>\<open>uint32_t\<close>: the
  number of bytes released is the span modulo \<open>2^32\<close>, whatever number of frames the span
  holds. It is the span itself when the span is below \<open>2^32\<close> bytes. The stream must
  index an existing buffer and the copy must fit into it.
\<close>

theorem readFrame_copy_and_release:
  assumes "ready_after s stream K"
    and "v = feed s stream (polls s stream + K)"
    and "stream < length (imgs s)"
    and "unat (bytes_of_frame (at_beg v) - hdr) \<le> length (pixels (imgs s ! stream))"
  shows "\<exists>s'. readFrame hdr stream s = Some (Inr (0, s')) \<and>
           take (unat (bytes_of_frame (at_beg v) - hdr)) (pixels (imgs s' ! stream)) =
             payload hdr (at_beg v) \<and>
           history s' = history s @ replicate (Suc K) (MapRead stream) @
             [Memcpy stream 0 (unat (bytes_of_frame (at_beg v) - hdr)),
              UnmapRead stream (ucast (consumed_bytes (beg v) (fin v)))] \<and>
           unat (ucast (consumed_bytes (beg v) (fin v)) :: 32 word) =
             unat (consumed_bytes (beg v) (fin v)) mod 2 ^ 32"
proof -
  have "unat (ucast (fin v - beg v) :: 32 word) = unat (fin v - beg v) mod 2 ^ 32"
    by (simp add: unsigned_ucast_eq take_bit_eq_mod)
  with readFrame_run [of s stream K v hdr] assms show ?thesis
    by (simp add: consumed_bytes_def)
qed

theorem readFrame_copy_and_release_witness:
  "ready_after (camera_in_mode (\<lambda>stream k. \<lparr>beg = 4096, fin = 4096 + 136, at_beg = frame_of 64 [1, 2, 3, 4]\<rparr>)
         CpxStatus_Ok CpxStatus_Ok ''Multi'') 0 0 \<and>
   next_frame 4096 (frame_of 64 [1, 2, 3, 4]) \<noteq> 4096 + 136 \<and>
   (\<exists>s'. readFrame 64 0 (camera_in_mode (\<lambda>stream k. \<lparr>beg = 4096, fin = 4096 + 136, at_beg = frame_of 64 [1, 2, 3, 4]\<rparr>)
         CpxStatus_Ok CpxStatus_Ok ''Multi'') = Some (Inr (0, s')) \<and>
      take 4 (pixels (imgs s' ! 0)) = [1, 2, 3, 4] \<and>
      history s' = [MapRead 0, Memcpy 0 0 4, UnmapRead 0 136])"
proof -
  let ?v = "\<lparr>beg = 4096, fin = 4096 + 136, at_beg = frame_of 64 [1, 2, 3, 4]\<rparr> :: FrameView"
  let ?s = "camera_in_mode (\<lambda>stream k. ?v) CpxStatus_Ok CpxStatus_Ok ''Multi''"
  have p: "payload 64 (at_beg ?v) = [1, 2, 3, 4]"
    by (simp add: payload_frame_of)
  have n: "unat (bytes_of_frame (at_beg ?v) - 64) = 4"
    by (simp add: frame_of_def)
  have h1: "ready_after ?s 0 0"
    by (simp add: ready_after_def camera_in_mode_Multi)
  have h2: "?v = feed ?s 0 (polls ?s 0 + 0)"
    by (simp add: camera_in_mode_Multi)
  have h3: "0 < length (imgs ?s)"
    by (simp add: camera_in_mode_Multi)
  have h4: "unat (bytes_of_frame (at_beg ?v) - 64) \<le> length (pixels (imgs ?s ! 0))"
    unfolding n by (simp add: camera_in_mode_Multi)
  have c: "ucast (consumed_bytes (4096 :: size_t) 4232) = (136 :: 32 word)"
    by (simp add: consumed_bytes_def)
  have f: "next_frame 4096 (frame_of 64 [1, 2, 3, 4]) \<noteq> 4096 + 136"
    by (simp add: next_frame_def frame_of_def)
  from readFrame_copy_and_release [OF h1 h2 h3 h4] h1 f show ?thesis
    unfolding p n by (simp add: c camera_in_mode_Multi) blast
qed

text \<open>
  C2 as stated (the bytes released are exactly the span) fails for a span of \<open>2^32\<close>
  bytes: the adapter releases 0 bytes.
\<close>

theorem readFrame_release_truncated:
  "map_option history (returned (readFrame 64 0
      (camera_in_mode (\<lambda>stream k. \<lparr>beg = 4096, fin = 4096 + 2 ^ 32, at_beg = frame_of 64 [1, 2, 3, 4]\<rparr>)
         CpxStatus_Ok CpxStatus_Ok ''Multi''))) =
     Some [MapRead 0, Memcpy 0 0 4, UnmapRead 0 0] \<and>
   unat (consumed_bytes (4096 :: size_t) (4096 + 2 ^ 32)) = 4294967296"
proof -
  let ?v = "\<lparr>beg = 4096, fin = 4096 + 2 ^ 32, at_beg = frame_of 64 [1, 2, 3, 4]\<rparr> :: FrameView"
  let ?s = "camera_in_mode (\<lambda>stream k. ?v) CpxStatus_Ok CpxStatus_Ok ''Multi''"
  have p: "payload 64 (at_beg ?v) = [1, 2, 3, 4]"
    by (simp add: payload_frame_of)
  have h1: "ready_after ?s 0 0"
    by (simp add: ready_after_def camera_in_mode_Multi)
  have h2: "?v = feed ?s 0 (polls ?s 0 + 0)"
    by (simp add: camera_in_mode_Multi)
  have h3: "0 < length (imgs ?s)"
    by (simp add: camera_in_mode_Multi)
  have h4: "length (payload 64 (at_beg ?v)) \<le> length (pixels (imgs ?s ! 0))"
    unfolding p by (simp add: camera_in_mode_Multi)
  have "ucast ((4096 :: size_t) + 2 ^ 32 - 4096) = (0 :: 32 word)"
    by simp
  with readFrame_run [OF h1 h2 h3 h4] show ?thesis
    unfolding p by (simp add: returned_def camera_in_mode_Multi consumed_bytes_def)
qed

text \<open>
  C1. Single-channel composite read, as \<^verbatim>\<open>SnapImage\<close> sets it up. In single mode the
  adapter has one buffer of 640 x 960 bytes, and \<^verbatim>\<open>SnapImage\<close> configures both cameras
  with the shape of that buffer, so that each frame carries 614400 payload bytes. The copy
  of stream 0 fills the whole buffer; the copy of stream 1, 614400 bytes to offset 307200,
  runs past the end of the buffer. The run ends in undefined behaviour after the first poll
  of stream 1, with stream 0's payload over both halves of the buffer, where the comment
  in \<^verbatim>\<open>readFrames\<close> ("append to the first") and the spec want stream 0's payload in the
  first half and stream 1's payload in the second.
\<close>

theorem SnapImage_single_overruns:
  "imgs (camera_in_mode
           (\<lambda>stream k. if stream = 0 then view_of 64 4096 (replicate 614400 7)
                        else view_of 64 8192 (replicate 614400 9))
           CpxStatus_Ok CpxStatus_Ok ''Single'') =
     [\<lparr>Width = 640, Height = 960, Depth = 1, pixels = replicate 614400 0\<rparr>] \<and>
   (\<exists>s'. SnapImage 64
            (camera_in_mode
               (\<lambda>stream k. if stream = 0 then view_of 64 4096 (replicate 614400 7)
                            else view_of 64 8192 (replicate 614400 9))
               CpxStatus_Ok CpxStatus_Ok ''Single'') = Some (Inl (BufferOverrun, s')) \<and>
      history s' =
        [Configure (\<lparr>binning = 1, pixel_type = SampleType_u8, shape = (640, 960), max_frame_count = 1\<rparr>,
                    \<lparr>binning = 1, pixel_type = SampleType_u8, shape = (640, 960), max_frame_count = 1\<rparr>),
         Start, MapRead 0, Memcpy 0 0 614400, UnmapRead 0 614464, MapRead 1] \<and>
      pixels (imgs s' ! 0) = replicate 614400 7)"
proof -
  let ?f = "\<lambda>stream k. if stream = (0::nat) then view_of 64 4096 (replicate 614400 7)
                        else view_of 64 8192 (replicate 614400 9)"
  let ?s = "camera_in_mode ?f CpxStatus_Ok CpxStatus_Ok ''Single''"
  let ?b = "\<lparr>Width = 640, Height = 960, Depth = 1, pixels = replicate 614400 0\<rparr>"
  let ?vp = "\<lparr>binning = 1, pixel_type = SampleType_u8, shape = (640, 960), max_frame_count = 1\<rparr>"
  let ?s2 = "?s\<lparr>history := history ?s @ [Configure (video_props ?b, video_props ?b), Start]\<rparr>"
  have i: "imgs ?s = ?b # []"
    by (simp add: camera_in_mode_Single)
  have vp: "video_props ?b = ?vp"
    by (simp add: video_props_def)
  have half: "second_half ?b = 307200"
    by (simp add: second_half_def)
  have p0: "payload 64 (at_beg (view_of 64 4096 (replicate 614400 7))) = replicate 614400 7"
    and p1: "payload 64 (at_beg (view_of 64 8192 (replicate 614400 9))) = replicate 614400 9"
    by (simp_all add: payload_frame_of)
  have "\<exists>s'. readFrames 64 ?s2 = Some (Inl (BufferOverrun, s')) \<and>
           history s' = history ?s2 @ replicate (Suc 0) (MapRead 0) @
             [Memcpy 0 0 (length (payload 64 (at_beg (view_of 64 4096 (replicate 614400 7))))),
              UnmapRead 0 (ucast (consumed_bytes (beg (view_of 64 4096 (replicate 614400 7)))
                                                 (fin (view_of 64 4096 (replicate 614400 7)))))] @
             replicate (Suc 0) (MapRead 1) \<and>
           imgs s' = ?b\<lparr>pixels := payload 64 (at_beg (view_of 64 4096 (replicate 614400 7))) @
             drop (length (payload 64 (at_beg (view_of 64 4096 (replicate 614400 7))))) (pixels ?b)\<rparr> # []"
  proof (rule readFrames_single_overrun [of _ ?b "[]" 0 _ 0])
    show "length (payload 64 (at_beg (view_of 64 4096 (replicate 614400 7)))) \<le> length (pixels ?b)"
      unfolding p0 by simp
    show "length (pixels ?b) < second_half ?b + length (payload 64 (at_beg (view_of 64 8192 (replicate 614400 9))))"
      unfolding half p1 by simp
  qed (simp_all add: camera_in_mode_Single ready_after_def)
  then obtain s' where r: "readFrames 64 ?s2 = Some (Inl (BufferOverrun, s'))"
    and h: "history s' = [Configure (?vp, ?vp), Start, MapRead 0, Memcpy 0 0 614400,
                          UnmapRead 0 614464, MapRead 1]"
    and px: "pixels (imgs s' ! 0) = replicate 614400 7"
    unfolding p0 vp by (auto simp: camera_in_mode_Single consumed_bytes_def)
  have "SnapImage 64 ?s = Some (Inl (BufferOverrun, s'))"
    using SnapImage_started [OF i, of 64] r by (simp add: camera_in_mode_Single)
  with h px i show ?thesis
    by blast
qed

text \<open>
  C4. Order of the composite read. When stream 0 delivers at its poll \<open>K0 + 1\<close> and
  stream 1 at its poll \<open>K1 + 1\<close> (and the two copies fit their buffers), \<^verbatim>\<open>readFrames\<close>
  returns, and what it has done is exactly this, in this order: \<open>K0 + 1\<close> polls of
  stream 0, one copy of the payload of the frame at the start of the view that poll gave,
  to offset 0 of buffer 0, one release of stream 0, and only then \<open>K1 + 1\<close> polls of
  stream 1, one copy of the payload of the frame at the start of that view (to buffer 1,
  or to the second half of buffer 0 in single mode) and one release of stream 1. Each
  stream has been polled just those times, and the buffers hold those two payloads.
\<close>

theorem readFrames_stream0_then_stream1:
  assumes r0: "ready_after s 0 K0" and v0: "v0 = feed s 0 (polls s 0 + K0)"
    and r1: "ready_after s 1 K1" and v1: "v1 = feed s 1 (polls s 1 + K1)"
    and i: "i = (if multiChannel s then 1 else 0)"
    and off: "off = (if multiChannel s then 0 else second_half (imgs s ! 0))"
    and n: "i < length (imgs s)"
    and f0: "length (payload hdr (at_beg v0)) \<le> length (pixels (imgs s ! 0))"
    and f1: "off + length (payload hdr (at_beg v1)) \<le> length (pixels (imgs s ! i))"
    and first: "first = (imgs s)[0 := (imgs s ! 0)\<lparr>pixels :=
                  payload hdr (at_beg v0) @
                  drop (length (payload hdr (at_beg v0))) (pixels (imgs s ! 0))\<rparr>]"
  shows "\<exists>s'. readFrames hdr s = Some (Inr (0, s')) \<and>
           history s' = history s @
             replicate (Suc K0) (MapRead 0) @
             [Memcpy 0 0 (length (payload hdr (at_beg v0))),
              UnmapRead 0 (ucast (consumed_bytes (beg v0) (fin v0)))] @
             replicate (Suc K1) (MapRead 1) @
             [Memcpy i off (length (payload hdr (at_beg v1))),
              UnmapRead 1 (ucast (consumed_bytes (beg v1) (fin v1)))] \<and>
           polls s' = (polls s)(0 := polls s 0 + Suc K0, 1 := polls s 1 + Suc K1) \<and>
           imgs s' = first[i := (first ! i)\<lparr>pixels :=
                  take off (pixels (first ! i)) @ payload hdr (at_beg v1) @
                  drop (off + length (payload hdr (at_beg v1))) (pixels (first ! i))\<rparr>]"
proof -
  let ?p0 = "payload hdr (at_beg v0)" and ?p1 = "payload hdr (at_beg v1)"
  from n obtain b bs where b: "imgs s = b # bs"
    by (cases "imgs s") auto
  let ?px = "?p0 @ drop (length ?p0) (pixels b)"
  let ?s2 = "polled 1 (Suc K1)
         ((polled 0 (Suc K0) s)
            \<lparr>imgs := b\<lparr>pixels := ?px\<rparr> # bs,
             history := history s @ replicate (Suc K0) (MapRead 0) @
               [Memcpy 0 0 (length ?p0), UnmapRead 0 (ucast (fin v0 - beg v0))]\<rparr>)"
  from f0 b have g0: "length ?p0 \<le> length (pixels b)"
    by simp
  have run: "readFrames hdr s = Some (second_frame hdr v1 ?s2)"
    by (rule readFrames_first [OF b r0 v0 r1 v1 refl g0 refl])
  have fst: "first = b\<lparr>pixels := ?px\<rparr> # bs"
    using first b by simp
  have len: "length ?px = length (pixels b)"
    using g0 by simp
  have fit: "off + length ?p1 \<le> length (pixels (first ! i))"
  proof (cases "multiChannel s")
    case True
    with i have "i = 1" by simp
    with f1 fst b show ?thesis by simp
  next
    case False
    with i have "i = 0" by simp
    with f1 fst b len show ?thesis by simp
  qed
  have "second_frame hdr v1 ?s2 = store hdr v1 1 i off ?s2"
    using i off b by (simp add: second_frame_def)
  also have "\<dots> = Inr (0, ?s2\<lparr>imgs := first[i := (first ! i)\<lparr>pixels :=
                  take off (pixels (first ! i)) @ ?p1 @
                  drop (off + length ?p1) (pixels (first ! i))\<rparr>],
          history := history ?s2 @ [Memcpy i off (length ?p1), UnmapRead 1 (ucast (fin v1 - beg v1))]\<rparr>)"
    using n fit b fst by (subst store_fits) simp_all
  finally show ?thesis
    unfolding run by (simp add: consumed_bytes_def polls_polled)
qed

theorem readFrames_stream0_then_stream1_witness:
  "ready_after (camera_in_mode
       (\<lambda>stream k. if stream = 0 then (if k < 2 then no_frames 4096 else view_of 64 4096 [1, 2, 3])
                    else (if k < 1 then no_frames 8192 else view_of 64 8192 [4, 5]))
       CpxStatus_Ok CpxStatus_Ok ''Multi'') 0 2 \<and>
   ready_after (camera_in_mode
       (\<lambda>stream k. if stream = 0 then (if k < 2 then no_frames 4096 else view_of 64 4096 [1, 2, 3])
                    else (if k < 1 then no_frames 8192 else view_of 64 8192 [4, 5]))
       CpxStatus_Ok CpxStatus_Ok ''Multi'') 1 1 \<and>
   (\<exists>s'. readFrames 64
       (camera_in_mode
          (\<lambda>stream k. if stream = 0 then (if k < 2 then no_frames 4096 else view_of 64 4096 [1, 2, 3])
                       else (if k < 1 then no_frames 8192 else view_of 64 8192 [4, 5]))
          CpxStatus_Ok CpxStatus_Ok ''Multi'') = Some (Inr (0, s')) \<and>
      history s' = [MapRead 0, MapRead 0, MapRead 0, Memcpy 0 0 3, UnmapRead 0 67,
                    MapRead 1, MapRead 1, Memcpy 1 0 2, UnmapRead 1 66] \<and>
      polls s' 0 = 3 \<and> polls s' 1 = 2 \<and>
      imgs s' = [\<lparr>Width = 640, Height = 480, Depth = 1, pixels = [1, 2, 3] @ replicate 307197 0\<rparr>,
                 \<lparr>Width = 640, Height = 480, Depth = 1, pixels = [4, 5] @ replicate 307198 0\<rparr>]) \<and>
   (\<exists>s'. readFrames 64
       (camera_in_mode
          (\<lambda>stream k. if stream = 0 then view_of 64 4096 [1, 2, 3] else view_of 64 8192 [4, 5])
          CpxStatus_Ok CpxStatus_Ok ''Single'') = Some (Inr (0, s')) \<and>
      history s' = [MapRead 0, Memcpy 0 0 3, UnmapRead 0 67,
                    MapRead 1, Memcpy 0 307200 2, UnmapRead 1 66])"
proof -
  let ?f = "\<lambda>stream k. if stream = (0::nat) then (if k < (2::nat) then no_frames 4096 else view_of 64 4096 [1, 2, 3])
                    else (if k < 1 then no_frames 8192 else view_of 64 8192 [4, 5])"
  let ?g = "\<lambda>stream k. if stream = (0::nat) then view_of 64 4096 [1, 2, 3] else view_of 64 8192 [4, 5]"
  let ?s = "camera_in_mode ?f CpxStatus_Ok CpxStatus_Ok ''Multi''"
  let ?t = "camera_in_mode ?g CpxStatus_Ok CpxStatus_Ok ''Single''"
  let ?v0 = "view_of 64 4096 [1, 2, 3]" and ?v1 = "view_of 64 8192 [4, 5]"
  let ?b = "\<lparr>Width = 640, Height = 480, Depth = 1, pixels = replicate 307200 0\<rparr>"
  let ?c = "\<lparr>Width = 640, Height = 960, Depth = 1, pixels = replicate 614400 0\<rparr>"
  have p: "payload 64 (at_beg ?v0) = [1, 2, 3]" "payload 64 (at_beg ?v1) = [4, 5]"
    by (simp_all add: payload_frame_of)
  have c: "consumed_bytes (beg ?v0) (fin ?v0) = 67" "consumed_bytes (beg ?v1) (fin ?v1) = 66"
    by (simp_all add: consumed_bytes_def)
  have l: "length [1, 2, 3 :: byte] = 3" "length [4, 5 :: byte] = 2"
    by simp_all
  have r: "replicate (Suc 2) x = [x, x, x]" "replicate (Suc 1) x = [x, x]" for x :: event
    by (simp_all add: numeral_eq_Suc)
  have half: "second_half ?c = 307200"
    by (simp add: second_half_def)
  have s0: "ready_after ?s 0 2" and s1: "ready_after ?s 1 1"
    and t0: "ready_after ?t 0 0" and t1: "ready_after ?t 1 0"
    by (simp_all add: ready_after_def camera_in_mode_Multi camera_in_mode_Single no_frames_def)
  have multi: "\<exists>s'. readFrames 64 ?s = Some (Inr (0, s')) \<and>
      history s' = [MapRead 0, MapRead 0, MapRead 0, Memcpy 0 0 3, UnmapRead 0 67,
                    MapRead 1, MapRead 1, Memcpy 1 0 2, UnmapRead 1 66] \<and>
      polls s' 0 = 3 \<and> polls s' 1 = 2 \<and>
      imgs s' = [\<lparr>Width = 640, Height = 480, Depth = 1, pixels = [1, 2, 3] @ replicate 307197 0\<rparr>,
                 \<lparr>Width = 640, Height = 480, Depth = 1, pixels = [4, 5] @ replicate 307198 0\<rparr>]"
    using readFrames_stream0_then_stream1 [OF s0 _ s1 _ refl refl _ _ _ refl, of ?v0 ?v1 64]
    unfolding p c l r by (simp add: camera_in_mode_Multi) force
  have single: "\<exists>s'. readFrames 64 ?t = Some (Inr (0, s')) \<and>
      history s' = [MapRead 0, Memcpy 0 0 3, UnmapRead 0 67,
                    MapRead 1, Memcpy 0 307200 2, UnmapRead 1 66]"
    using readFrames_stream0_then_stream1 [OF t0 _ t1 _ refl refl _ _ _ refl, of ?v0 ?v1 64]
    unfolding p c l by (simp add: camera_in_mode_Single half) blast
  from s0 s1 multi single show ?thesis
    by blast
qed

text \<open>
  C3, as the adapter has it. In demo mode (the \<open>demo\<close> flag, which the constructor sets
  and \<^verbatim>\<open>Initialize\<close> keeps when the Demo property reads 1), after every change of the Mode
  property to one of its two legal values the buffers match the mode: Multi gives exactly 2
  buffers of width W = 640 and height H = 480, Single gives exactly 1 buffer of width W and
  height 2H; and the first buffer setup, in \<^verbatim>\<open>Initialize\<close>, gives the 2 buffers of Multi.
\<close>

theorem mode_change_buffers:
  assumes "demo s" and "mode = g_prop_Mode_Multi \<or> mode = g_prop_Mode_Single"
  shows "map dims (imgs (fst (snd (OnImageMode s mode AfterSet)))) =
           (if mode = g_prop_Mode_Multi
            then [(DEMO_IMAGE_WIDTH, DEMO_IMAGE_HEIGHT, 1), (DEMO_IMAGE_WIDTH, DEMO_IMAGE_HEIGHT, 1)]
            else [(DEMO_IMAGE_WIDTH, 2 * DEMO_IMAGE_HEIGHT, 1)]) \<and>
         multiChannel (fst (snd (OnImageMode s mode AfterSet))) = (mode = g_prop_Mode_Multi) \<and>
         (\<not> initialized s \<longrightarrow>
            map dims (imgs (snd (Initialize 1 cpx_ok ret_props ret_cam0 ret_cam1 s))) =
              [(DEMO_IMAGE_WIDTH, DEMO_IMAGE_HEIGHT, 1), (DEMO_IMAGE_WIDTH, DEMO_IMAGE_HEIGHT, 1)])"
proof -
  have "map dims (imgs (snd (Initialize 1 cpx_ok ret_props ret_cam0 ret_cam1 s))) =
      [(DEMO_IMAGE_WIDTH, DEMO_IMAGE_HEIGHT, 1), (DEMO_IMAGE_WIDTH, DEMO_IMAGE_HEIGHT, 1)]"
    if "\<not> initialized s"
    using that by (simp add: Initialize_def Let_def setupBuffers_demo)
  with assms(1) show ?thesis
    by (simp add: OnImageMode_def setupBuffers_demo)
qed

theorem mode_change_buffers_witness:
  "map dims (imgs (fst (snd (OnImageMode (AcquireCamera0 (\<lambda>stream k. no_frames 0) CpxStatus_Ok CpxStatus_Ok) ''Single'' AfterSet)))) = [(640, 960, 1)] \<and>
   map dims (imgs (fst (snd (OnImageMode (AcquireCamera0 (\<lambda>stream k. no_frames 0) CpxStatus_Ok CpxStatus_Ok) ''Multi'' AfterSet)))) = [(640, 480, 1), (640, 480, 1)] \<and>
   map dims (imgs (snd (Initialize 1 True CpxStatus_Ok CpxStatus_Ok CpxStatus_Ok (AcquireCamera0 (\<lambda>stream k. no_frames 0) CpxStatus_Ok CpxStatus_Ok)))) = [(640, 480, 1), (640, 480, 1)]"
proof -
  let ?s = "AcquireCamera0 (\<lambda>stream k. no_frames 0) CpxStatus_Ok CpxStatus_Ok"
  have d: "demo ?s" and i: "\<not> initialized ?s"
    by (simp_all add: AcquireCamera0_def)
  have m: "''Single'' = g_prop_Mode_Multi \<or> ''Single'' = g_prop_Mode_Single"
    "''Multi'' = g_prop_Mode_Multi \<or> ''Multi'' = g_prop_Mode_Single"
    by (simp_all add: g_prop_Mode_Multi_def g_prop_Mode_Single_def)
  from mode_change_buffers [OF d m(1), of True CpxStatus_Ok CpxStatus_Ok CpxStatus_Ok]
    mode_change_buffers [OF d m(2), of True CpxStatus_Ok CpxStatus_Ok CpxStatus_Ok] i
  show ?thesis
    by (simp add: g_prop_Mode_Multi_def DEMO_IMAGE_WIDTH_def DEMO_IMAGE_HEIGHT_def)
qed

text \<open>
  C3 as stated (after every mode change) fails outside demo mode: \<^verbatim>\<open>setupBuffers\<close> does
  nothing there, and an adapter initialised with the Demo property reading 0 has no buffer
  at all, before and after the change to Single.
\<close>

theorem mode_change_outside_demo:
  "imgs (fst (snd (OnImageMode
      (snd (Initialize 0 True CpxStatus_Ok CpxStatus_Ok CpxStatus_Ok
             (AcquireCamera0 (\<lambda>stream k. no_frames 0) CpxStatus_Ok CpxStatus_Ok)))
      ''Single'' AfterSet))) = [] \<and>
   imgs (snd (Initialize 0 True CpxStatus_Ok CpxStatus_Ok CpxStatus_Ok
             (AcquireCamera0 (\<lambda>stream k. no_frames 0) CpxStatus_Ok CpxStatus_Ok))) = []"
  by (simp add: OnImageMode_def Initialize_def AcquireCamera0_def setupBuffers_def)

text \<open>
  C8. Idempotence of the buffer setup: \<^verbatim>\<open>setupBuffers\<close> leaves the mode alone, and calling
  it twice gives as many buffers, of the same width, height and depth, as calling it once.
\<close>

theorem setupBuffers_twice:
  "map dims (imgs (setupBuffers (setupBuffers s))) = map dims (imgs (setupBuffers s)) \<and>
   length (imgs (setupBuffers (setupBuffers s))) = length (imgs (setupBuffers s)) \<and>
   multiChannel (setupBuffers s) = multiChannel s"
  by (simp add: setupBuffers_def)

text \<open>
  C5, as the adapter has it. \<^verbatim>\<open>SnapImage\<close> on an adapter that has a buffer: when
  \<^verbatim>\<open>cpx_configure\<close> fails it logs, returns the "configure failed" code and has called
  neither \<^verbatim>\<open>cpx_start\<close> nor \<^verbatim>\<open>cpx_map_read\<close>; when \<^verbatim>\<open>cpx_start\<close> fails it throws an
  exception, returns no code and has not polled; when both succeed and the composite read
  returns, whatever it returns, \<^verbatim>\<open>cpx_stop\<close> is called next and \<^verbatim>\<open>SnapImage\<close> returns
  \<^verbatim>\<open>DEVICE_OK\<close>.
\<close>

theorem SnapImage_outcomes:
  assumes "imgs s = b # bs"
  shows "(configure_status s \<noteq> CpxStatus_Ok \<longrightarrow>
            SnapImage hdr s =
              Some (Inr (ERR_CPX_CONFIURE_FAILED,
                s\<lparr>history := history s @
                   [Configure (video_props b, video_props b),
                    LogMessage ''cpx_configure failed'']\<rparr>))) \<and>
         (configure_status s = CpxStatus_Ok \<and> start_status s \<noteq> CpxStatus_Ok \<longrightarrow>
            SnapImage hdr s =
              Some (Inl (Exception ''cpx_start failed'',
                s\<lparr>history := history s @ [Configure (video_props b, video_props b), Start]\<rparr>))) \<and>
         (configure_status s = CpxStatus_Ok \<and> start_status s = CpxStatus_Ok \<longrightarrow>
            (\<forall>r s'. readFrames hdr
                     (s\<lparr>history := history s @ [Configure (video_props b, video_props b), Start]\<rparr>) =
                     Some (Inr (r, s')) \<longrightarrow>
                   SnapImage hdr s = Some (Inr (DEVICE_OK, s'\<lparr>history := history s' @ [Stop]\<rparr>))))"
  using assms
  by (simp add: SnapImage_def cpx_configure_def cpx_start_def cpx_stop_def)

theorem SnapImage_outcomes_witness:
  "SnapImage 64 (camera_in_mode (\<lambda>stream k. no_frames 0) CpxStatus_Error CpxStatus_Ok ''Multi'') =
     Some (Inr (ERR_CPX_CONFIURE_FAILED,
       (camera_in_mode (\<lambda>stream k. no_frames 0) CpxStatus_Error CpxStatus_Ok ''Multi'')
         \<lparr>history :=
            [Configure (\<lparr>binning = 1, pixel_type = SampleType_u8, shape = (640, 480), max_frame_count = 1\<rparr>,
                        \<lparr>binning = 1, pixel_type = SampleType_u8, shape = (640, 480), max_frame_count = 1\<rparr>),
             LogMessage ''cpx_configure failed'']\<rparr>)) \<and>
   SnapImage 64 (camera_in_mode (\<lambda>stream k. no_frames 0) CpxStatus_Ok CpxStatus_Error ''Multi'') =
     Some (Inl (Exception ''cpx_start failed'',
       (camera_in_mode (\<lambda>stream k. no_frames 0) CpxStatus_Ok CpxStatus_Error ''Multi'')
         \<lparr>history :=
            [Configure (\<lparr>binning = 1, pixel_type = SampleType_u8, shape = (640, 480), max_frame_count = 1\<rparr>,
                        \<lparr>binning = 1, pixel_type = SampleType_u8, shape = (640, 480), max_frame_count = 1\<rparr>),
             Start]\<rparr>)) \<and>
   map_option history (returned (SnapImage 64
       (camera_in_mode (\<lambda>stream k. if stream = 0 then view_of 64 4096 [1, 2, 3] else view_of 64 8192 [4, 5])
          CpxStatus_Ok CpxStatus_Ok ''Multi''))) =
     Some [Configure (\<lparr>binning = 1, pixel_type = SampleType_u8, shape = (640, 480), max_frame_count = 1\<rparr>,
                      \<lparr>binning = 1, pixel_type = SampleType_u8, shape = (640, 480), max_frame_count = 1\<rparr>),
           Start, MapRead 0, Memcpy 0 0 3, UnmapRead 0 67, MapRead 1, Memcpy 1 0 2, UnmapRead 1 66, Stop]"
proof -
  let ?b = "\<lparr>Width = 640, Height = 480, Depth = 1, pixels = replicate 307200 0\<rparr>"
  let ?vp = "\<lparr>binning = 1, pixel_type = SampleType_u8, shape = (640, 480), max_frame_count = 1\<rparr>"
  let ?s1 = "camera_in_mode (\<lambda>stream k. no_frames 0) CpxStatus_Error CpxStatus_Ok ''Multi''"
  let ?s2 = "camera_in_mode (\<lambda>stream k. no_frames 0) CpxStatus_Ok CpxStatus_Error ''Multi''"
  let ?s3 = "camera_in_mode (\<lambda>stream k. if stream = 0 then view_of 64 4096 [1, 2, 3] else view_of 64 8192 [4, 5])
          CpxStatus_Ok CpxStatus_Ok ''Multi''"
  let ?s3' = "?s3\<lparr>history := history ?s3 @ [Configure (video_props ?b, video_props ?b), Start]\<rparr>"
  have i1: "imgs ?s1 = ?b # [?b]" and i2: "imgs ?s2 = ?b # [?b]" and i3: "imgs ?s3 = ?b # [?b]"
    by (simp_all add: camera_in_mode_Multi)
  have a: "SnapImage 64 ?s1 = Some (Inr (ERR_CPX_CONFIURE_FAILED,
       ?s1\<lparr>history := [Configure (?vp, ?vp), LogMessage ''cpx_configure failed'']\<rparr>))"
    using SnapImage_outcomes [OF i1, of 64]
    by (simp add: video_props_demo) (simp add: camera_in_mode_Multi)
  have b: "SnapImage 64 ?s2 = Some (Inl (Exception ''cpx_start failed'',
       ?s2\<lparr>history := [Configure (?vp, ?vp), Start]\<rparr>))"
    using SnapImage_outcomes [OF i2, of 64]
    by (simp add: video_props_demo) (simp add: camera_in_mode_Multi)
  have "\<exists>s'. readFrames 64 ?s3' = Some (Inr (0, s')) \<and>
           imgs s' = ?b\<lparr>pixels := [1, 2, 3] @ drop (length [1, 2, 3 :: byte]) (pixels ?b)\<rparr> #
                     ?b\<lparr>pixels := [4, 5] @ drop (length [4, 5 :: byte]) (pixels ?b)\<rparr> # [] \<and>
           history s' = history ?s3' @
             replicate (Suc 0) (MapRead 0) @
             [Memcpy 0 0 (length [1, 2, 3 :: byte]), UnmapRead 0 (ucast (fin (view_of 64 4096 [1, 2, 3]) - beg (view_of 64 4096 [1, 2, 3])))] @
             replicate (Suc 0) (MapRead 1) @
             [Memcpy 1 0 (length [4, 5 :: byte]), UnmapRead 1 (ucast (fin (view_of 64 8192 [4, 5]) - beg (view_of 64 8192 [4, 5])))]"
  proof (rule readFrames_multi)
    show "[1, 2, 3] = payload 64 (at_beg (view_of 64 4096 [1, 2, 3]))"
      "[4, 5] = payload 64 (at_beg (view_of 64 8192 [4, 5]))"
      by (simp_all add: payload_frame_of)
  qed (simp_all add: camera_in_mode_Multi ready_after_def)
  then obtain s' where r: "readFrames 64 ?s3' = Some (Inr (0, s'))"
    and h: "history s' = [Configure (?vp, ?vp), Start, MapRead 0, Memcpy 0 0 3, UnmapRead 0 67,
                          MapRead 1, Memcpy 1 0 2, UnmapRead 1 66]"
    by (auto simp: camera_in_mode_Multi video_props_demo)
  have "configure_status ?s3 = CpxStatus_Ok \<and> start_status ?s3 = CpxStatus_Ok"
    by (simp add: camera_in_mode_Multi)
  with SnapImage_outcomes [OF i3, of 64] r
  have "SnapImage 64 ?s3 = Some (Inr (DEVICE_OK, s'\<lparr>history := history s' @ [Stop]\<rparr>))"
    by blast
  with h have c: "map_option history (returned (SnapImage 64 ?s3)) =
      Some [Configure (?vp, ?vp), Start, MapRead 0, Memcpy 0 0 3, UnmapRead 0 67,
            MapRead 1, Memcpy 1 0 2, UnmapRead 1 66, Stop]"
    by (simp add: returned_def)
  from a b c show ?thesis
    by blast
qed

text \<open>
  C5 as stated (a start failure reports the "configure failed" condition) fails: when
  \<^verbatim>\<open>cpx_start\<close> fails, \<^verbatim>\<open>SnapImage\<close> ends in the exception and returns no code.
\<close>

theorem SnapImage_start_failure:
  "faulted (SnapImage 64 (camera_in_mode (\<lambda>stream k. no_frames 0) CpxStatus_Ok CpxStatus_Error ''Multi'')) =
     Some (Exception ''cpx_start failed'') \<and>
   returned (SnapImage 64 (camera_in_mode (\<lambda>stream k. no_frames 0) CpxStatus_Ok CpxStatus_Error ''Multi'')) =
     None"
  by (simp add: SnapImage_def cpx_configure_def cpx_start_def faulted_def returned_def
        camera_in_mode_Multi)

text \<open>
  C9. The per-channel accessors, on an adapter with at least one buffer (and no more than a
  vector can hold): for a channel at or past the number of buffers, \<^verbatim>\<open>GetImageBuffer\<close>
  returns the null pointer and \<^verbatim>\<open>GetChannelName\<close> returns
  \<^verbatim>\<open>DEVICE_NONEXISTENT_CHANNEL\<close> and leaves the name as it was; for a channel below the
  number of buffers, \<^verbatim>\<open>GetImageBuffer\<close> returns the pixels of that buffer and
  \<^verbatim>\<open>GetChannelName\<close> returns \<^verbatim>\<open>DEVICE_OK\<close>.
\<close>

theorem channel_accessors:
  assumes "0 < length (imgs s)" and "length (imgs s) < 2 ^ 64"
  shows "(length (imgs s) \<le> unat c \<longrightarrow>
            GetImageBuffer s c = Inr None \<and>
            GetChannelName s c name = (DEVICE_NONEXISTENT_CHANNEL, name)) \<and>
         (unat c < length (imgs s) \<longrightarrow>
            GetImageBuffer s c = Inr (Some (pixels (imgs s ! unat c))) \<and>
            fst (GetChannelName s c name) = DEVICE_OK)"
  using channel_past_end [OF assms, of c]
  by (simp add: GetImageBuffer_def GetChannelName_def Let_def)

theorem channel_accessors_witness:
  "GetImageBuffer (camera_in_mode (\<lambda>stream k. no_frames 0) CpxStatus_Ok CpxStatus_Ok ''Multi'') 2 = Inr None \<and>
   GetChannelName (camera_in_mode (\<lambda>stream k. no_frames 0) CpxStatus_Ok CpxStatus_Ok ''Multi'') 2 ''old'' =
     (DEVICE_NONEXISTENT_CHANNEL, ''old'') \<and>
   GetImageBuffer (camera_in_mode (\<lambda>stream k. no_frames 0) CpxStatus_Ok CpxStatus_Ok ''Multi'') 1 =
     Inr (Some (replicate 307200 0)) \<and>
   fst (GetChannelName (camera_in_mode (\<lambda>stream k. no_frames 0) CpxStatus_Ok CpxStatus_Ok ''Multi'') 1 ''old'') =
     DEVICE_OK"
proof -
  let ?s = "camera_in_mode (\<lambda>stream k. no_frames 0) CpxStatus_Ok CpxStatus_Ok ''Multi''"
  have l: "length (imgs ?s) = 2"
    by (simp add: camera_in_mode_Multi)
  have h1: "0 < length (imgs ?s)" and h2: "length (imgs ?s) < 2 ^ 64"
    unfolding l by simp_all
  from channel_accessors [OF h1 h2, of 2 "''old''"] channel_accessors [OF h1 h2, of 1 "''old''"]
  show ?thesis
    unfolding l by (simp add: camera_in_mode_Multi)
qed

text \<open>
  C10. \<^verbatim>\<open>ASIBase::GetName\<close> copies, with the bounded copy, the value of the Name property
  when the device has one and the string "Undefined" when it has none, whatever the local
  array and the target held before. Constructed with the empty string as name, on a base
  object without a Name property, the device has no Name property and \<^verbatim>\<open>GetName\<close> gives
  "Undefined"; constructed with another name it gives that name (cut to the bound).
\<close>

theorem GetName_copies:
  "GetName d name pszName =
     (case properties d g_Keyword_Name of
        Some p \<Rightarrow> take (MaxStrLength - 1) (pvalue p)
      | None \<Rightarrow> ''Undefined'') \<and>
   (properties base g_Keyword_Name = None \<longrightarrow>
      HasProperty (ASIBase_ctor defaults asi base []) g_Keyword_Name = False \<and>
      GetName (ASIBase_ctor defaults asi base []) name pszName = ''Undefined'' \<and>
      (n \<noteq> [] \<longrightarrow> GetName (ASIBase_ctor defaults asi base n) name pszName = take (MaxStrLength - 1) n))"
  by (simp add: GetName_def HasProperty_def GetProperty_def CopyLimitedString_def
        properties_ASIBase_ctor MaxStrLength_def split: option.splits)

theorem GetName_copies_witness:
  "GetName (ASIBase_ctor [(1, ''generic'')] [(10017, ''unrecognized'')] \<lparr>properties = Map.empty, messages = Map.empty\<rparr> []) ''junk'' ''old'' = ''Undefined'' \<and>
   GetName (ASIBase_ctor [(1, ''generic'')] [(10017, ''unrecognized'')] \<lparr>properties = Map.empty, messages = Map.empty\<rparr> ''XYStage:XY:31'') ''junk'' ''old'' = ''XYStage:XY:31''"
proof -
  let ?base = "\<lparr>properties = Map.empty, messages = Map.empty\<rparr> :: DeviceBase"
  have h: "properties ?base g_Keyword_Name = None"
    by simp
  have n: "''XYStage:XY:31'' \<noteq> []"
    by simp
  from GetName_copies [of "ASIBase_ctor [] [] ?base []" "''junk''" "''old''" ?base "[(1, ''generic'')]"
      "[(10017, ''unrecognized'')]" "''XYStage:XY:31''", THEN conjunct2] h n
  show ?thesis
    by (simp add: MaxStrLength_def)
qed

end
